theory Spec2Isabelle
  imports Main
begin

section \<open>Data model\<close>

text \<open>
  The status of a migration is a Go string that only ever holds the zero value or one of
  the five constants of package storage. \<open>StatusNone\<close> is the zero value \<open>""\<close> of a
  fragment that was never recorded.
\<close>

datatype status =
  StatusNone | StatusProcess | StatusSuccess | StatusCancellation | StatusCancel | StatusError

text \<open>
  Sentinel errors of the packages app, processes and storage. \<open>ErrRange\<close> is the error
  of \<open>strconv.Atoi\<close> on a number that does not fit an int, \<open>ErrOther\<close> any other error
  value (\<open>errors.New\<close> of the mock, an I/O or driver error). \<open>PanicIndexOutOfRange\<close>
  is not a returned value but the run-time panic of an index outside a slice: no caller
  recovers from it, so every caller passes it on unchanged, deferred calls still running.
\<close>

datatype error =
  ErrInvalidMigrationName
  | ErrRange
  | ErrMigrationUp
  | ErrMigrationDown
  | ErrMigrationRedo
  | ErrGetStatus
  | ErrGetVersion
  | ErrUnexpectedMigrationVersion
  | ErrMigrationNotFound
  | ErrOther string
  | PanicIndexOutOfRange

text \<open>
  \<open>UpGo\<close> and \<open>DownGo\<close> are closures that start \<open>go run\<close> on one file of the
  migration directory; the model keeps the name of that file, \<open>None\<close> is the nil func.
\<close>

type_synonym gofunc = string

record Migration =
  Version :: int
  Name :: string
  Up :: string
  Down :: string
  UpGo :: "gofunc option"
  DownGo :: "gofunc option"
  Status :: status
  StatusChangeTime :: nat

section \<open>The persistence contract and the world around the engine\<close>

text \<open>
  Everything the engine acts on: the records of the store in insertion order (the slice of
  \<open>MockSQLStorage\<close>), whether the exclusion lock is held, the clock read by
  \<open>time.Now\<close>, and the trace of the effects performed so far, oldest first.
\<close>

datatype event =
  EvLock
  | EvUnlock
  | EvInsert int string status
  | EvMigrate string
  | EvGo gofunc

record world =
  records :: "Migration list"
  lockHeld :: bool
  clock :: nat
  trace :: "event list"

text \<open>
  What an implementation of \<open>storage.SQLStorage\<close> and the script runner decide: whether
  \<open>Connect\<close>, \<open>Lock\<close>, \<open>Unlock\<close>, \<open>InsertMigration\<close> and \<open>Migrate\<close> fail, which error
  \<open>SelectLastMigrationByStatus\<close> returns when no record matches, and whether a Go
  script fails.
\<close>

record env =
  connectErr :: "error option"
  lockErr :: "error option"
  unlockErr :: "error option"
  insertErr :: "Migration \<Rightarrow> error option"
  migrateErr :: "string \<Rightarrow> error option"
  notFound :: error
  goErr :: "gofunc \<Rightarrow> error option"

text \<open>
  \<open>MockSQLStorage\<close>: every operation returns nil, and a missing record is reported with
  a fresh \<open>errors.New\<close>, which \<open>errors.Is\<close> never equates with
  \<open>storage.ErrMigrationNotFound\<close>.
\<close>

definition MockSQLStorage :: "(gofunc \<Rightarrow> error option) \<Rightarrow> env" where
  "MockSQLStorage run =
     \<lparr>connectErr = None, lockErr = None, unlockErr = None, insertErr = (\<lambda>_. None), migrateErr = (\<lambda>_. None),
      notFound = ErrOther ''no migrations found with status'', goErr = run\<rparr>"

text \<open>
  Modelled from the spec: \<open>storage.NewPostgresStorage\<close>, the store used by \<open>main\<close>,
  is not among the sources. Section 4.1 of the specification gives its contract: the
  operations may fail, and \<open>selectLastMigrationByStatus\<close> fails with the not-found
  error when no record matches.
\<close>

definition ContractStorage ::
  "error option \<Rightarrow> (Migration \<Rightarrow> error option) \<Rightarrow> (string \<Rightarrow> error option) \<Rightarrow>
   (gofunc \<Rightarrow> error option) \<Rightarrow> env" where
  "ContractStorage lck ins mig run =
     \<lparr>connectErr = None, lockErr = lck, unlockErr = None, insertErr = ins, migrateErr = mig,
      notFound = ErrMigrationNotFound, goErr = run\<rparr>"

definition Lock :: "env \<Rightarrow> world \<Rightarrow> error option \<times> world" where
  "Lock e w =
     (case lockErr e of
        Some err \<Rightarrow> (Some err, w)
      | None \<Rightarrow> (None, w\<lparr>lockHeld := True, trace := trace w @ [EvLock]\<rparr>))"

definition Unlock :: "env \<Rightarrow> world \<Rightarrow> error option \<times> world" where
  "Unlock e w =
     (case unlockErr e of
        Some err \<Rightarrow> (Some err, w)
      | None \<Rightarrow> (None, w\<lparr>lockHeld := False, trace := trace w @ [EvUnlock]\<rparr>))"

text \<open>
  The loop of \<open>MockSQLStorage.InsertMigration\<close>: the first record with the same version
  and name is updated in place, otherwise the migration is appended. The mock appends the
  pointer it is given; every later change of that object by the engine is followed by an
  \<open>InsertMigration\<close> of the same values before the store is read again, so storing the
  value gives the same records at every read.
\<close>

fun upsert :: "Migration \<Rightarrow> Migration list \<Rightarrow> Migration list" where
  "upsert migration [] = [migration]"
| "upsert migration (m # ms) =
     (if Version m = Version migration \<and> Name m = Name migration
      then m\<lparr>Status := Status migration, StatusChangeTime := StatusChangeTime migration,
             Version := Version migration, Name := Name migration\<rparr> # ms
      else m # upsert migration ms)"

definition InsertMigration :: "env \<Rightarrow> Migration \<Rightarrow> world \<Rightarrow> error option \<times> world" where
  "InsertMigration e migration w =
     (let w1 = w\<lparr>trace := trace w @ [EvInsert (Version migration) (Name migration) (Status migration)]\<rparr>
      in case insertErr e migration of
           Some err \<Rightarrow> (Some err, w1)
         | None \<Rightarrow> (None, w1\<lparr>records := upsert migration (records w1)\<rparr>))"

definition Migrate :: "env \<Rightarrow> string \<Rightarrow> world \<Rightarrow> error option \<times> world" where
  "Migrate e sql w = (migrateErr e sql, w\<lparr>trace := trace w @ [EvMigrate sql]\<rparr>)"

definition runGo :: "env \<Rightarrow> gofunc \<Rightarrow> world \<Rightarrow> error option \<times> world" where
  "runGo e g w = (goErr e g, w\<lparr>trace := trace w @ [EvGo g]\<rparr>)"

text \<open>The loop of \<open>SelectLastMigrationByStatus\<close> runs from the last record down.\<close>

definition SelectLastMigrationByStatus :: "env \<Rightarrow> status \<Rightarrow> world \<Rightarrow> error + Migration" where
  "SelectLastMigrationByStatus e st w =
     (case List.find (\<lambda>m. Status m = st) (rev (records w)) of
        None \<Rightarrow> Inl (notFound e)
      | Some m \<Rightarrow> Inr m)"

definition Now :: "world \<Rightarrow> nat \<times> world" where
  "Now w = (clock w, w\<lparr>clock := Suc (clock w)\<rparr>)"

section \<open>The migrator\<close>

record Migrator =
  migrations :: "Migration list"
  storage :: world

definition New :: "world \<Rightarrow> Migrator" where
  "New w = \<lparr>migrations = [], storage = w\<rparr>"

text \<open>
  \<open>Create\<close> numbers the migrations by position. The status \<open>"success"\<close> it writes is
  never read: \<open>executeMigration\<close> sets the status before it stores a migration.
\<close>

definition Create ::
  "string \<Rightarrow> string \<Rightarrow> string \<Rightarrow> gofunc option \<Rightarrow> gofunc option \<Rightarrow> Migrator \<Rightarrow> Migrator" where
  "Create name up down upGo downGo m =
     m\<lparr>migrations := migrations m @
         [\<lparr>Version = int (length (migrations m)) + 1, Name = name, Up = up, Down = down,
           UpGo = upGo, DownGo = downGo, Status = StatusSuccess, StatusChangeTime = 0\<rparr>]\<rparr>"

text \<open>
  \<open>executeMigration\<close> works on a pointer to the migration; the model returns the changed
  migration next to the error, and the caller writes it back. In both failure branches
  the source declares a second \<open>err\<close> for the result of \<open>InsertMigration\<close> and
  returns that one, so the error of the script is dropped there.
\<close>

definition executeMigration ::
  "env \<Rightarrow> Migration \<Rightarrow> string \<Rightarrow> gofunc option \<Rightarrow> status \<Rightarrow> status \<Rightarrow> status \<Rightarrow> world \<Rightarrow>
   error option \<times> Migration \<times> world" where
  "executeMigration e migration sql goFunc processStatus successStatus errorStatus w =
     (let (t1, w1) = Now w;
          m1 = migration\<lparr>Status := processStatus, StatusChangeTime := t1\<rparr>
      in case InsertMigration e m1 w1 of
           (Some err, w2) \<Rightarrow> (Some err, m1, w2)
         | (None, w2) \<Rightarrow>
             (case (case goFunc of
                      Some g \<Rightarrow> runGo e g w2
                    | None \<Rightarrow> if sql \<noteq> [] then Migrate e sql w2 else (None, w2)) of
                (Some _, w3) \<Rightarrow>
                  (let (t2, w4) = Now w3;
                       m2 = m1\<lparr>Status := errorStatus, StatusChangeTime := t2\<rparr>;
                       (err, w5) = InsertMigration e m2 w4
                   in (err, m2, w5))
              | (None, w3) \<Rightarrow>
                  (let (t2, w4) = Now w3;
                       m2 = m1\<lparr>Status := successStatus, StatusChangeTime := t2\<rparr>
                   in case InsertMigration e m2 w4 of
                        (Some err, w5) \<Rightarrow> (Some err, m2, w5)
                      | (None, w5) \<Rightarrow> (None, m2, w5))))"

definition upMigration ::
  "env \<Rightarrow> Migration \<Rightarrow> string \<Rightarrow> gofunc option \<Rightarrow> world \<Rightarrow> error option \<times> Migration \<times> world" where
  "upMigration e migration sql upGo w =
     executeMigration e migration sql upGo StatusProcess StatusSuccess StatusError w"

definition downMigration ::
  "env \<Rightarrow> Migration \<Rightarrow> string \<Rightarrow> gofunc option \<Rightarrow> world \<Rightarrow> error option \<times> Migration \<times> world" where
  "downMigration e migration sql downGo w =
     executeMigration e migration sql downGo StatusCancellation StatusCancel StatusError w"

text \<open>
  Go's \<open>int\<close> has 64 bits here. Versions are modelled as \<open>int\<close>; the one operation
  on a stored version that can leave the range, \<open>GetVersion() - 1\<close>, wraps around.
\<close>

definition int64 :: "int \<Rightarrow> int" where
  "int64 x = (x + 2 ^ 63) mod 2 ^ 64 - 2 ^ 63"

text \<open>
  The block shared by \<open>Up\<close>, \<open>Redo\<close> and \<open>DBVersion\<close>: the version of the last
  successful migration, 0 when the store reports \<open>ErrMigrationNotFound\<close>, together
  with \<open>lastMigration\<close> (nil in that case); any other error is passed on.
\<close>

definition lastSuccess :: "env \<Rightarrow> world \<Rightarrow> error + (int \<times> Migration option)" where
  "lastSuccess e w =
     (case SelectLastMigrationByStatus e StatusSuccess w of
        Inr lastMigration \<Rightarrow> Inr (Version lastMigration, Some lastMigration)
      | Inl err \<Rightarrow> if err \<noteq> ErrMigrationNotFound then Inl err else Inr (0, None))"

definition versionMismatch :: "Migration option \<Rightarrow> Migrator \<Rightarrow> bool" where
  "versionMismatch lastMigration m =
     (case lastMigration of
        None \<Rightarrow> False
      | Some lm \<Rightarrow> int64 (Version lm - 1) > int (length (migrations m)))"

text \<open>The loop of \<open>Up\<close>, \<open>for i := lastVersion; i < len(m.migrations); i++\<close>.\<close>

function Up_loop :: "env \<Rightarrow> int \<Rightarrow> Migrator \<Rightarrow> error option \<times> Migrator" where
  "Up_loop e i m =
     (if i < int (length (migrations m)) then
        (if i < 0 then (Some PanicIndexOutOfRange, m)
         else
           (let mig = migrations m ! nat i;
                (err, mig', w') = upMigration e mig (Up mig) (UpGo mig) (storage m);
                m' = m\<lparr>migrations := (migrations m)[nat i := mig'], storage := w'\<rparr>
            in case err of
                 Some _ \<Rightarrow> (Some ErrMigrationUp, m')
               | None \<Rightarrow> Up_loop e (i + 1) m'))
      else (None, m))"
  by pat_completeness auto
termination
  by (relation "measure (\<lambda>(e, i, m). nat (int (length (migrations m)) - i))") auto

declare Up_loop.simps [simp del]

text \<open>The body of \<open>Up\<close> between \<open>Lock\<close> and the deferred \<open>Unlock\<close>.\<close>

definition Up_locked :: "env \<Rightarrow> Migrator \<Rightarrow> error option \<times> Migrator" where
  "Up_locked e m =
     (case lastSuccess e (storage m) of
        Inl err \<Rightarrow> (Some err, m)
      | Inr (lastVersion, lastMigration) \<Rightarrow>
          if versionMismatch lastMigration m then (Some ErrUnexpectedMigrationVersion, m)
          else Up_loop e lastVersion m)"

text \<open>
  The deferred \<open>Unlock\<close> runs on every way out of the body, a panic included; its error
  is logged and dropped.
\<close>

definition deferUnlock :: "env \<Rightarrow> error option \<times> Migrator \<Rightarrow> error option \<times> Migrator" where
  "deferUnlock e r = (fst r, (snd r)\<lparr>storage := snd (Unlock e (storage (snd r)))\<rparr>)"

definition Migrator_Up :: "env \<Rightarrow> Migrator \<Rightarrow> error option \<times> Migrator" where
  "Migrator_Up e m =
     (case Lock e (storage m) of
        (Some err, w) \<Rightarrow> (Some err, m\<lparr>storage := w\<rparr>)
      | (None, w) \<Rightarrow> deferUnlock e (Up_locked e (m\<lparr>storage := w\<rparr>)))"

definition Down_locked :: "env \<Rightarrow> Migrator \<Rightarrow> error option \<times> Migrator" where
  "Down_locked e m =
     (case SelectLastMigrationByStatus e StatusSuccess (storage m) of
        Inl err \<Rightarrow> if err = ErrMigrationNotFound then (None, m) else (Some err, m)
      | Inr lastMigration \<Rightarrow>
          if Version lastMigration > int (length (migrations m))
          then (Some ErrUnexpectedMigrationVersion, m)
          else
            (let downMigrationIndex = int64 (Version lastMigration - 1)
             in if downMigrationIndex < 0 \<or> int (length (migrations m)) \<le> downMigrationIndex
                then (Some PanicIndexOutOfRange, m)
                else
                  (let mig = migrations m ! nat downMigrationIndex;
                       (err, mig', w') = downMigration e mig (Down mig) (DownGo mig) (storage m);
                       m' = m\<lparr>migrations := (migrations m)[nat downMigrationIndex := mig'],
                              storage := w'\<rparr>
                   in case err of
                        Some _ \<Rightarrow> (Some ErrMigrationDown, m')
                      | None \<Rightarrow> (None, m'))))"

definition Migrator_Down :: "env \<Rightarrow> Migrator \<Rightarrow> error option \<times> Migrator" where
  "Migrator_Down e m =
     (case Lock e (storage m) of
        (Some err, w) \<Rightarrow> (Some err, m\<lparr>storage := w\<rparr>)
      | (None, w) \<Rightarrow> deferUnlock e (Down_locked e (m\<lparr>storage := w\<rparr>)))"

text \<open>
  \<open>Redo\<close> takes no lock of its own: \<open>Down\<close> locks and unlocks, and what follows runs
  after the deferred \<open>Unlock\<close> of \<open>Down\<close>.
\<close>

definition Migrator_Redo :: "env \<Rightarrow> Migrator \<Rightarrow> error option \<times> Migrator" where
  "Migrator_Redo e m =
     (case Migrator_Down e m of
        (Some err, m1) \<Rightarrow> (Some err, m1)
      | (None, m1) \<Rightarrow>
          (case lastSuccess e (storage m1) of
             Inl err \<Rightarrow> (Some err, m1)
           | Inr (lastVersion, lastMigration) \<Rightarrow>
               if versionMismatch lastMigration m1 then (Some ErrUnexpectedMigrationVersion, m1)
               else if lastVersion < 0 \<or> int (length (migrations m1)) \<le> lastVersion
               then (Some PanicIndexOutOfRange, m1)
               else
                 (let mig = migrations m1 ! nat lastVersion;
                      (err, mig', w') = upMigration e mig (Up mig) (UpGo mig) (storage m1);
                      m' = m1\<lparr>migrations := (migrations m1)[nat lastVersion := mig'],
                              storage := w'\<rparr>
                  in case err of
                       Some _ \<Rightarrow> (Some ErrMigrationRedo, m')
                     | None \<Rightarrow> (None, m'))))"

text \<open>\<open>DBVersion\<close> logs the version; the model returns it.\<close>

definition Migrator_DBVersion :: "env \<Rightarrow> Migrator \<Rightarrow> error + int" where
  "Migrator_DBVersion e m =
     (case lastSuccess e (storage m) of
        Inl err \<Rightarrow> Inl ErrGetVersion
      | Inr (lastVersion, lastMigration) \<Rightarrow> Inr lastVersion)"

section \<open>The registry\<close>

text \<open>\<open>regGetVersion.FindString\<close>: the match of \<open>^\d+\<close>, empty when there is none.\<close>

definition isDigit :: "char \<Rightarrow> bool" where
  "isDigit c = (c \<in> set ''0123456789'')"

definition regGetVersion :: "string \<Rightarrow> string" where
  "regGetVersion fileName = takeWhile isDigit fileName"

text \<open>
  \<open>strconv.Atoi\<close> on a string of decimal digits, the only strings it is given here: the
  number, or a range error when it does not fit an int.
\<close>

definition decimal :: "string \<Rightarrow> int" where
  "decimal ds = foldl (\<lambda>n c. 10 * n + (int (of_char c) - 48)) 0 ds"

definition Atoi :: "string \<Rightarrow> error + int" where
  "Atoi s = (let n = decimal s in if n < 2 ^ 63 then Inr n else Inl ErrRange)"

text \<open>\<open>strings.Split(fileName, "_")\<close> and \<open>strings.Join(parts, "_")\<close>.\<close>

fun Split :: "string \<Rightarrow> string list" where
  "Split [] = [[]]"
| "Split (c # cs) =
     (if c = CHR ''_'' then [] # Split cs
      else (case Split cs of [] \<Rightarrow> [[c]] | p # ps \<Rightarrow> (c # p) # ps))"

fun Join :: "string list \<Rightarrow> string" where
  "Join [] = []"
| "Join [p] = p"
| "Join (p # ps) = p @ ''_'' @ Join ps"

definition parseFileName :: "string \<Rightarrow> error + (int \<times> string)" where
  "parseFileName fileName =
     (let strVersion = regGetVersion fileName
      in if strVersion = [] then Inl ErrInvalidMigrationName
         else
           (case Atoi strVersion of
              Inl err \<Rightarrow> Inl err
            | Inr version \<Rightarrow>
                (let parts = Split fileName
                 in if length parts < 3 then Inl ErrInvalidMigrationName
                    else Inr (version, Join (butlast (tl parts))))))"

text \<open>
  The four patterns \<open>^.+_up\.sql$\<close>, \<open>^.+_down\.sql$\<close>, \<open>^.+_up\.go$\<close> and
  \<open>^.+_down\.go$\<close>: the name ends with the suffix, and what stands before it is not
  empty and holds no line feed, which \<open>.\<close> does not match.
\<close>

definition matchSuffix :: "string \<Rightarrow> string \<Rightarrow> bool" where
  "matchSuffix suffix s =
     (length suffix < length s \<and> drop (length s - length suffix) s = suffix \<and>
      CHR 0x0A \<notin> set (take (length s - length suffix) s))"

definition regGetUpMigration :: "string \<Rightarrow> bool" where
  "regGetUpMigration = matchSuffix ''_up.sql''"

definition regGetDownMigration :: "string \<Rightarrow> bool" where
  "regGetDownMigration = matchSuffix ''_down.sql''"

definition regGetUpGoMigration :: "string \<Rightarrow> bool" where
  "regGetUpGoMigration = matchSuffix ''_up.go''"

definition regGetDownGoMigration :: "string \<Rightarrow> bool" where
  "regGetDownGoMigration = matchSuffix ''_down.go''"

text \<open>
  An entry of the directory: its name and what \<open>os.ReadFile\<close> returns for it. A fragment
  is a \<open>storage.Migration\<close> whose other fields hold their zero values.
\<close>

type_synonym dirEntry = "string \<times> (error + string)"

definition fragment :: "int \<Rightarrow> string \<Rightarrow> Migration" where
  "fragment version migrationName =
     \<lparr>Version = version, Name = migrationName, Up = [], Down = [], UpGo = None, DownGo = None,
      Status = StatusNone, StatusChangeTime = 0\<rparr>"

definition processMigrationFile :: "dirEntry \<Rightarrow> int \<Rightarrow> string \<Rightarrow> error + Migration" where
  "processMigrationFile file version migrationName =
     (if regGetUpMigration (fst file) then
        (case snd file of
           Inl err \<Rightarrow> Inl err
         | Inr sql \<Rightarrow> Inr ((fragment version migrationName)\<lparr>Up := sql\<rparr>))
      else if regGetDownMigration (fst file) then
        (case snd file of
           Inl err \<Rightarrow> Inl err
         | Inr sql \<Rightarrow> Inr ((fragment version migrationName)\<lparr>Down := sql\<rparr>))
      else if regGetUpGoMigration (fst file) then
        Inr ((fragment version migrationName)\<lparr>UpGo := Some (fst file)\<rparr>)
      else if regGetDownGoMigration (fst file) then
        Inr ((fragment version migrationName)\<lparr>DownGo := Some (fst file)\<rparr>)
      else Inl ErrInvalidMigrationName)"

definition mergeMigrations :: "Migration \<Rightarrow> Migration \<Rightarrow> Migration" where
  "mergeMigrations existing new =
     (let e1 = (if Up new \<noteq> [] then existing\<lparr>Up := Up new\<rparr> else existing);
          e2 = (if Down new \<noteq> [] then e1\<lparr>Down := Down new\<rparr> else e1);
          e3 = (if UpGo new \<noteq> None then e2\<lparr>UpGo := UpGo new\<rparr> else e2);
          e4 = (if DownGo new \<noteq> None then e3\<lparr>DownGo := DownGo new\<rparr> else e3)
      in e4)"

text \<open>The loop of \<open>getMigrations\<close> over the entries, in the order \<open>os.ReadDir\<close> lists them.\<close>

fun getMigrations_loop ::
  "dirEntry list \<Rightarrow> (int \<rightharpoonup> Migration) \<Rightarrow> error + (int \<rightharpoonup> Migration)" where
  "getMigrations_loop [] migs = Inr migs"
| "getMigrations_loop (file # files) migs =
     (case parseFileName (fst file) of
        Inl err \<Rightarrow> Inl err
      | Inr (version, migrationName) \<Rightarrow>
          (case processMigrationFile file version migrationName of
             Inl err \<Rightarrow> Inl err
           | Inr migration \<Rightarrow>
               (case migs version of
                  Some existingMigration \<Rightarrow>
                    getMigrations_loop files
                      (migs(version \<mapsto> mergeMigrations existingMigration migration))
                | None \<Rightarrow> getMigrations_loop files (migs(version \<mapsto> migration)))))"

definition getMigrations :: "error + dirEntry list \<Rightarrow> error + (int \<rightharpoonup> Migration)" where
  "getMigrations dir =
     (case dir of
        Inl err \<Rightarrow> Inl err
      | Inr files \<Rightarrow> getMigrations_loop files Map.empty)"

text \<open>
  \<open>runMigrations\<close> ranges over the map that \<open>getMigrations\<close> returns. Go visits every key
  of a map once and leaves the order open, so the order of the visit is an argument here:
  any list that holds every key once.
\<close>

definition rangeOrder :: "int list \<Rightarrow> (int \<rightharpoonup> Migration) \<Rightarrow> bool" where
  "rangeOrder order migs = (distinct order \<and> set order = dom migs)"

fun registerAll :: "int list \<Rightarrow> (int \<rightharpoonup> Migration) \<Rightarrow> Migrator \<Rightarrow> Migrator" where
  "registerAll [] migs migrator = migrator"
| "registerAll (k # order) migs migrator =
     (case migs k of
        None \<Rightarrow> registerAll order migs migrator
      | Some migration \<Rightarrow>
          registerAll order migs
            (Create (Name migration) (Up migration) (Down migration) (UpGo migration)
               (DownGo migration) migrator))"

definition runMigrations ::
  "env \<Rightarrow> error + dirEntry list \<Rightarrow> int list \<Rightarrow> (env \<Rightarrow> Migrator \<Rightarrow> error option \<times> Migrator) \<Rightarrow>
   world \<Rightarrow> error option \<times> Migrator" where
  "runMigrations e dir order migrationFunc w =
     (case getMigrations dir of
        Inl err \<Rightarrow> (Some err, New w)
      | Inr migs \<Rightarrow>
          (let migrator = registerAll order migs (New w)
           in case connectErr e of
                Some err \<Rightarrow> (Some err, migrator)
              | None \<Rightarrow> migrationFunc e migrator))"

section \<open>Reading a trace\<close>

text \<open>
  The side-effecting action of one migration, as \<open>executeMigration\<close> chooses it: the Go
  script when there is one, else the statement text when it is not empty, else nothing;
  and the error the action ends with.
\<close>

definition action_trace :: "string \<Rightarrow> gofunc option \<Rightarrow> event list" where
  "action_trace sql goFunc =
     (case goFunc of
        Some g \<Rightarrow> [EvGo g]
      | None \<Rightarrow> if sql \<noteq> [] then [EvMigrate sql] else [])"

definition action_err :: "env \<Rightarrow> string \<Rightarrow> gofunc option \<Rightarrow> error option" where
  "action_err e sql goFunc =
     (case goFunc of
        Some g \<Rightarrow> goErr e g
      | None \<Rightarrow> if sql \<noteq> [] then migrateErr e sql else None)"

text \<open>
  The trace of one transition of a migration: the write of the transient status, then,
  when that write succeeded, the action and the write of the terminal status. \<open>t\<close> is
  the clock at the start.
\<close>

definition transition ::
  "env \<Rightarrow> Migration \<Rightarrow> string \<Rightarrow> gofunc option \<Rightarrow> status \<Rightarrow> status \<Rightarrow> status \<Rightarrow> nat \<Rightarrow> event list" where
  "transition e mig sql g ps ss es t =
     EvInsert (Version mig) (Name mig) ps #
       (if insertErr e (mig\<lparr>Status := ps, StatusChangeTime := t\<rparr>) = None
        then action_trace sql g @
             [EvInsert (Version mig) (Name mig) (if action_err e sql g = None then ss else es)]
        else [])"

definition downTransition :: "env \<Rightarrow> Migration \<Rightarrow> nat \<Rightarrow> event list" where
  "downTransition e mig t =
     transition e mig (Down mig) (DownGo mig) StatusCancellation StatusCancel StatusError t"

definition upTransition :: "env \<Rightarrow> Migration \<Rightarrow> nat \<Rightarrow> event list" where
  "upTransition e mig t =
     transition e mig (Up mig) (UpGo mig) StatusProcess StatusSuccess StatusError t"

text \<open>What the deferred \<open>Unlock\<close> adds to the trace.\<close>

definition unlocking :: "env \<Rightarrow> event list" where
  "unlocking e = (case unlockErr e of None \<Rightarrow> [EvUnlock] | Some _ \<Rightarrow> [])"

text \<open>The migration bodies run in a trace, and its status writes.\<close>

fun isBody :: "event \<Rightarrow> bool" where
  "isBody (EvMigrate _) = True"
| "isBody (EvGo _) = True"
| "isBody _ = False"

fun isWrite :: "event \<Rightarrow> bool" where
  "isWrite (EvInsert _ _ _) = True"
| "isWrite _ = False"

definition bodies :: "event list \<Rightarrow> event list" where
  "bodies tr = filter isBody tr"

definition writes :: "event list \<Rightarrow> event list" where
  "writes tr = filter isWrite tr"

text \<open>
  \<open>underLock held tr\<close>: starting with the lock held or not, every migration body of the
  trace runs while the lock is held.
\<close>

fun underLock :: "bool \<Rightarrow> event list \<Rightarrow> bool" where
  "underLock held [] = True"
| "underLock held (EvLock # tr) = underLock True tr"
| "underLock held (EvUnlock # tr) = underLock False tr"
| "underLock held (EvInsert v n s # tr) = underLock held tr"
| "underLock held (ev # tr) = (held \<and> underLock held tr)"

section \<open>Registries, histories and fragments\<close>

text \<open>
  A registry is dense when the migration at index \<open>i\<close> has version \<open>i + 1\<close>, as
  \<open>Create\<close> numbers them.
\<close>

definition dense :: "Migration list \<Rightarrow> bool" where
  "dense ms = (map Version ms = map int [1..<Suc (length ms)])"

text \<open>
  A history is in step with a registry, given by the names of its migrations, when the
  record at position \<open>j\<close> holds version \<open>j + 1\<close> and, inside the registry, the name of
  the migration at index \<open>j\<close>: the records were inserted in the order of the versions.
\<close>

definition inStep :: "string list \<Rightarrow> Migration list \<Rightarrow> bool" where
  "inStep names recs =
     (map Version recs = map int [1..<Suc (length recs)] \<and>
      map Name (take (length names) recs) = take (length recs) names)"

text \<open>The version of the last Success record of a list of records, 0 when there is none.\<close>

definition lastSuccessVersion :: "Migration list \<Rightarrow> int" where
  "lastSuccessVersion rs =
     (case List.find (\<lambda>r. Status r = StatusSuccess) (rev rs) of None \<Rightarrow> 0 | Some r \<Rightarrow> Version r)"

text \<open>Two fragments supply disjoint fields: no body field is set in both.\<close>

definition disjointFields :: "Migration \<Rightarrow> Migration \<Rightarrow> bool" where
  "disjointFields a b =
     ((Up a = [] \<or> Up b = []) \<and> (Down a = [] \<or> Down b = []) \<and>
      (UpGo a = None \<or> UpGo b = None) \<and> (DownGo a = None \<or> DownGo b = None))"

section \<open>Inputs of the examples\<close>

text \<open>
  \<open>storage.CreateMigration(name, status, version, time)\<close>, which the test uses to fill the
  store; its declaration is not among the sources, the fields it does not set are zero.
\<close>

definition CreateMigration :: "string \<Rightarrow> status \<Rightarrow> int \<Rightarrow> nat \<Rightarrow> Migration" where
  "CreateMigration name st version t =
     \<lparr>Version = version, Name = name, Up = [], Down = [], UpGo = None, DownGo = None,
      Status = st, StatusChangeTime = t\<rparr>"

definition history :: "Migration list \<Rightarrow> world" where
  "history rs = \<lparr>records = rs, lockHeld = False, clock = 0, trace = []\<rparr>"

text \<open>A script runner in which exactly the Go script \<open>bad\<close> fails.\<close>

definition failing :: "gofunc \<Rightarrow> gofunc \<Rightarrow> error option" where
  "failing bad g = (if g = bad then Some (ErrOther ''exit status 1'') else None)"

definition succeeding :: "gofunc \<Rightarrow> error option" where
  "succeeding g = None"

text \<open>A store and a script runner in which nothing fails.\<close>

definition healthy :: env where
  "healthy = ContractStorage None (\<lambda>_. None) (\<lambda>_. None) succeeding"

text \<open>Registries of one, two and three migrations, built by \<open>Create\<close> as \<open>runMigrations\<close> does.\<close>

definition registry1 :: "world \<Rightarrow> Migrator" where
  "registry1 w = Create ''a'' ''CREATE a'' ''DROP a'' None None (New w)"

definition registry2 :: "world \<Rightarrow> Migrator" where
  "registry2 w = Create ''b'' ''CREATE b'' ''DROP b'' None None (registry1 w)"

definition registry3 :: "world \<Rightarrow> Migrator" where
  "registry3 w = Create ''c'' ''CREATE c'' ''DROP c'' None None (registry2 w)"

text \<open>The same three, the second with a Go script for its way up.\<close>

definition registry3go :: "world \<Rightarrow> Migrator" where
  "registry3go w =
     Create ''c'' ''CREATE c'' ''DROP c'' None None
       (Create ''b'' [] [] (Some ''2_b_up.go'') (Some ''2_b_down.go'') (registry1 w))"

text \<open>A directory of two scripts, and the fragments \<open>getMigrations\<close> reads from it.\<close>

definition twoFiles :: "dirEntry list" where
  "twoFiles = [(''1_a_up.sql'', Inr ''CREATE a''), (''2_b_up.sql'', Inr ''CREATE b'')]"

definition twoFragments :: "int \<rightharpoonup> Migration" where
  "twoFragments =
     [1 \<mapsto> (fragment 1 ''a'')\<lparr>Up := ''CREATE a''\<rparr>, 2 \<mapsto> (fragment 2 ''b'')\<lparr>Up := ''CREATE b''\<rparr>]"

section \<open>Basic facts\<close>

lemmas ex_defs = registry1_def registry2_def registry3_def registry3go_def New_def Create_def
  history_def CreateMigration_def MockSQLStorage_def ContractStorage_def failing_def
  succeeding_def

lemmas ev_defs = ex_defs healthy_def unlocking_def transition_def downTransition_def
  upTransition_def action_trace_def action_err_def dense_def

lemmas run_defs = Migrator_Up_def Up_locked_def Migrator_Down_def Down_locked_def
  Migrator_Redo_def Migrator_DBVersion_def deferUnlock_def lastSuccess_def versionMismatch_def
  SelectLastMigrationByStatus_def Lock_def Unlock_def upMigration_def downMigration_def
  executeMigration_def Now_def InsertMigration_def Migrate_def runGo_def int64_def Let_def

text \<open>
  \<open>executeMigration\<close> in one piece: the error it returns is that of the status write it
  ends with, whatever the action did.
\<close>

lemma executeMigration_eq:
  "executeMigration e mig sql g ps ss es w =
     (let m1 = mig\<lparr>Status := ps, StatusChangeTime := clock w\<rparr>;
          w1 = w\<lparr>clock := Suc (clock w),
                 trace := trace w @ [EvInsert (Version mig) (Name mig) ps]\<rparr>
      in case insertErr e m1 of
           Some err \<Rightarrow> (Some err, m1, w1)
         | None \<Rightarrow>
             (let m2 = mig\<lparr>Status := (if action_err e sql g = None then ss else es),
                          StatusChangeTime := Suc (clock w)\<rparr>;
                  w2 = w\<lparr>clock := Suc (Suc (clock w)),
                         trace := trace w @ EvInsert (Version mig) (Name mig) ps #
                           action_trace sql g @ [EvInsert (Version mig) (Name mig) (Status m2)],
                         records := (case insertErr e m2 of
                                       Some _ \<Rightarrow> upsert m1 (records w)
                                     | None \<Rightarrow> upsert m2 (upsert m1 (records w)))\<rparr>
              in (insertErr e m2, m2, w2)))"
  by (auto simp: executeMigration_def Now_def InsertMigration_def Migrate_def runGo_def
        action_trace_def action_err_def Let_def split: option.splits prod.splits)

lemma find_rev_none: "\<forall>r\<in>set rs. \<not> P r \<Longrightarrow> List.find P (rev rs) = None"
  by (simp add: find_None_iff)

lemma find_append:
  "List.find P (xs @ ys) = (case List.find P xs of None \<Rightarrow> List.find P ys | Some x \<Rightarrow> Some x)"
  by (induction xs) auto

lemma find_rev_last:
  "\<forall>r\<in>set post. \<not> P r \<Longrightarrow> P x \<Longrightarrow> List.find P (rev (pre @ x # post)) = Some x"
  by (simp add: find_append find_rev_none)

text \<open>Every registry that \<open>runMigrations\<close> builds is dense.\<close>

lemma dense_New: "dense (migrations (New w))"
  by (simp add: dense_def New_def)

lemma dense_Create:
  "dense (migrations m) \<Longrightarrow> dense (migrations (Create name up down upGo downGo m))"
  by (simp add: dense_def Create_def)

lemma dense_registerAll:
  "dense (migrations m) \<Longrightarrow> dense (migrations (registerAll order migs m))"
  by (induction order arbitrary: m) (auto simp: dense_Create split: option.splits)

lemma dense_nth: "dense ms \<Longrightarrow> i < length ms \<Longrightarrow> Version (ms ! i) = int i + 1"
proof -
  assume d: "dense ms" and i: "i < length ms"
  have "Version (ms ! i) = map Version ms ! i" using i by simp
  also have "\<dots> = map int [1..<Suc (length ms)] ! i" using d by (simp add: dense_def)
  also have "\<dots> = int i + 1" using i by (simp del: upt_Suc)
  finally show ?thesis .
qed

lemma int64_id: "- (2 ^ 63) \<le> x \<Longrightarrow> x < 2 ^ 63 \<Longrightarrow> int64 x = x"
  by (simp add: int64_def)

lemma executeMigration_trace:
  "trace (snd (snd (executeMigration e mig sql g ps ss es w))) =
     trace w @ transition e mig sql g ps ss es (clock w)"
  by (simp add: executeMigration_eq transition_def Let_def split: option.splits)

lemma executeMigration_lockHeld:
  "lockHeld (snd (snd (executeMigration e mig sql g ps ss es w))) = lockHeld w"
  by (simp add: executeMigration_eq Let_def split: option.splits)

lemma bodies_action: "length (bodies (action_trace sql g)) \<le> 1"
  by (simp add: bodies_def action_trace_def split: option.splits)

lemma bodies_transition: "length (bodies (transition e mig sql g ps ss es t)) \<le> 1"
  using bodies_action [of sql g] by (simp add: transition_def bodies_def)

lemma writes_transition: "length (writes (transition e mig sql g ps ss es t)) \<le> 2"
  by (simp add: transition_def writes_def action_trace_def split: option.splits)

lemma Select_none:
  "\<forall>r\<in>set (records w). Status r \<noteq> st \<Longrightarrow> SelectLastMigrationByStatus e st w = Inl (notFound e)"
  by (simp add: SelectLastMigrationByStatus_def find_rev_none)

lemma Select_last:
  "records w = pre @ lm # post \<Longrightarrow> Status lm = st \<Longrightarrow> \<forall>r\<in>set post. Status r \<noteq> st \<Longrightarrow>
   SelectLastMigrationByStatus e st w = Inr lm"
  using find_rev_last [of post "\<lambda>m. Status m = st" lm pre]
  by (simp add: SelectLastMigrationByStatus_def)

lemma Down_locked_trace:
  "trace (storage (snd (Down_locked e m))) =
     trace (storage m) @
       (case SelectLastMigrationByStatus e StatusSuccess (storage m) of
          Inl err \<Rightarrow> []
        | Inr lm \<Rightarrow>
            if Version lm > int (length (migrations m)) \<or> int64 (Version lm - 1) < 0
               \<or> int (length (migrations m)) \<le> int64 (Version lm - 1) then []
            else downTransition e (migrations m ! nat (int64 (Version lm - 1))) (clock (storage m)))"
  by (simp add: Down_locked_def downMigration_def downTransition_def Let_def
        executeMigration_trace [symmetric] split: sum.splits prod.splits option.splits)


lemma Migrator_Down_trace:
  assumes "lockErr e = None"
  shows "trace (storage (snd (Migrator_Down e m))) =
     trace (storage m) @ EvLock #
       (case SelectLastMigrationByStatus e StatusSuccess (storage m) of
          Inl err \<Rightarrow> []
        | Inr lm \<Rightarrow>
            if Version lm > int (length (migrations m)) \<or> int64 (Version lm - 1) < 0
               \<or> int (length (migrations m)) \<le> int64 (Version lm - 1) then []
            else downTransition e (migrations m ! nat (int64 (Version lm - 1))) (clock (storage m)))
       @ unlocking e"
  using assms
  by (simp add: Migrator_Down_def Lock_def Unlock_def deferUnlock_def unlocking_def
        Down_locked_trace SelectLastMigrationByStatus_def split: option.splits sum.splits)

lemma Migrator_Down_noop:
  assumes "lockErr e = None" and "notFound e = ErrMigrationNotFound"
    and "\<forall>r\<in>set (records (storage m)). Status r \<noteq> StatusSuccess"
  shows "fst (Migrator_Down e m) = None"
    and "migrations (snd (Migrator_Down e m)) = migrations m"
    and "records (storage (snd (Migrator_Down e m))) = records (storage m)"
  using assms
  by (simp_all add: Migrator_Down_def Lock_def Unlock_def deferUnlock_def Down_locked_def
        SelectLastMigrationByStatus_def find_rev_none split: option.splits)

lemma upsert_hit:
  assumes "\<forall>r\<in>set pre. Version r = v \<longrightarrow> Name r \<noteq> n"
    and "Version lm = v" and "Name lm = n" and "Version x = v" and "Name x = n"
  shows "upsert x (pre @ lm # post) =
     pre @ lm\<lparr>Status := Status x, StatusChangeTime := StatusChangeTime x\<rparr> # post"
  using assms by (induction pre) auto

lemma upsert_miss:
  "\<forall>r\<in>set rs. \<not> (Version r = Version x \<and> Name r = Name x) \<Longrightarrow> upsert x rs = rs @ [x]"
  by (induction rs) auto

lemma Migrator_Down_hit:
  assumes lock: "lockErr e = None"
    and ins: "\<forall>x. insertErr e x = None"
    and recs: "records (storage m) = pre @ lm # post"
    and lm: "Status lm = StatusSuccess" and post: "\<forall>r\<in>set post. Status r \<noteq> StatusSuccess"
    and V: "1 \<le> Version lm" "Version lm \<le> int (length (migrations m))" "Version lm < 2 ^ 63"
    and dense: "dense (migrations m)"
    and name: "Name (migrations m ! nat (Version lm - 1)) = Name lm"
    and first: "\<forall>r\<in>set pre. Version r = Version lm \<longrightarrow> Name r \<noteq> Name lm"
  shows "Migrator_Down e m =
    (let mig = migrations m ! nat (Version lm - 1);
         st = (if action_err e (Down mig) (DownGo mig) = None then StatusCancel else StatusError);
         w = storage m
     in (None,
         m\<lparr>migrations := (migrations m)[nat (Version lm - 1) :=
                mig\<lparr>Status := st, StatusChangeTime := Suc (clock w)\<rparr>],
           storage := snd (Unlock e (w\<lparr>lockHeld := True, clock := Suc (Suc (clock w)),
             trace := trace w @ EvLock # downTransition e mig (clock w),
             records := pre @ lm\<lparr>Status := st, StatusChangeTime := Suc (clock w)\<rparr> # post\<rparr>))\<rparr>))"
proof -
  let ?i = "nat (Version lm - 1)"
  let ?mig = "migrations m ! ?i"
  have sel: "SelectLastMigrationByStatus e StatusSuccess ((storage m)\<lparr>lockHeld := True, trace := trace (storage m) @ [EvLock]\<rparr>) = Inr lm"
    using recs lm post by (simp add: Select_last)
  have idx: "int64 (Version lm - 1) = Version lm - 1"
    using V by (simp add: int64_id)
  have i: "?i < length (migrations m)" using V by linarith
  have ver: "Version ?mig = Version lm"
    using dense_nth [OF dense i] V by simp
  have u1: "upsert (?mig\<lparr>Status := s, StatusChangeTime := t\<rparr>) (pre @ lm # post)
       = pre @ lm\<lparr>Status := s, StatusChangeTime := t\<rparr> # post" for s t
    using upsert_hit [OF first, of lm "?mig\<lparr>Status := s, StatusChangeTime := t\<rparr>" post]
    by (simp add: ver name)
  have u2: "upsert (?mig\<lparr>Status := s, StatusChangeTime := t\<rparr>)
         (pre @ lm\<lparr>Status := s', StatusChangeTime := t'\<rparr> # post)
       = pre @ lm\<lparr>Status := s, StatusChangeTime := t\<rparr> # post" for s t s' t'
    using upsert_hit [OF first, of "lm\<lparr>Status := s', StatusChangeTime := t'\<rparr>"
        "?mig\<lparr>Status := s, StatusChangeTime := t\<rparr>" post]
    by (simp add: ver name)
  have i': "\<not> int (length (migrations m)) \<le> Version lm - 1" "\<not> Version lm - 1 < 0"
       "\<not> int (length (migrations m)) < Version lm" "\<not> Version lm < 1"
    using V by simp_all
  show ?thesis
    by (simp add: Migrator_Down_def Lock_def lock deferUnlock_def Down_locked_def sel idx i'
          downMigration_def executeMigration_eq ins Let_def recs u1 u2 downTransition_def
          transition_def)
qed


lemma find_rev_skip:
  "\<forall>r\<in>set post. \<not> P r \<Longrightarrow> \<not> P x \<Longrightarrow> List.find P (rev (pre @ x # post)) = List.find P (rev pre)"
  by (simp add: find_append find_rev_none)

lemma Unlock_frame:
  "records (snd (Unlock e w)) = records w"
  "clock (snd (Unlock e w)) = clock w"
  "trace (snd (Unlock e w)) = trace w @ unlocking e"
  by (simp_all add: Unlock_def unlocking_def split: option.splits)

text \<open>Records in step with the registry: where \<open>InsertMigration\<close> puts a migration.\<close>

lemma inStep_Version: "inStep names recs \<Longrightarrow> j < length recs \<Longrightarrow> Version (recs ! j) = int j + 1"
proof -
  assume s: "inStep names recs" and j: "j < length recs"
  have "Version (recs ! j) = map Version recs ! j" using j by simp
  also have "\<dots> = map int [1..<Suc (length recs)] ! j" using s by (simp add: inStep_def)
  also have "\<dots> = int j + 1" using j by (simp del: upt_Suc)
  finally show ?thesis .
qed

lemma inStep_Name:
  assumes s: "inStep names recs" and j: "j < length recs" "j < length names"
  shows "Name (recs ! j) = names ! j"
proof -
  have "Name (recs ! j) = map Name (take (length names) recs) ! j" using j by simp
  also have "\<dots> = take (length recs) names ! j" using s by (simp add: inStep_def)
  also have "\<dots> = names ! j" using j by simp
  finally show ?thesis .
qed

lemma inStepI:
  assumes "\<And>j. j < length recs \<Longrightarrow> Version (recs ! j) = int j + 1"
    and "\<And>j. j < length recs \<Longrightarrow> j < length names \<Longrightarrow> Name (recs ! j) = names ! j"
  shows "inStep names recs"
  unfolding inStep_def
proof
  show "map Version recs = map int [1..<Suc (length recs)]"
    using assms(1) by (intro nth_equalityI) (simp_all del: upt_Suc)
  show "map Name (take (length names) recs) = take (length recs) names"
    using assms(2) by (intro nth_equalityI) simp_all
qed

lemma upsert_inStep_hit:
  assumes s: "inStep names recs" and i: "i < length recs"
    and v: "Version x = int i + 1" and n: "Name x = Name (recs ! i)"
  shows "upsert x recs = recs[i := (recs ! i)\<lparr>Status := Status x, StatusChangeTime := StatusChangeTime x\<rparr>]"
proof -
  have dec: "recs = take i recs @ recs ! i # drop (Suc i) recs"
    using i by (simp add: id_take_nth_drop)
  have first: "\<forall>r\<in>set (take i recs). Version r = int i + 1 \<longrightarrow> Name r \<noteq> Name x"
  proof
    fix r assume "r \<in> set (take i recs)"
    then obtain j where j: "j < i" "r = recs ! j"
      using i by (auto simp: in_set_conv_nth)
    with inStep_Version [OF s, of j] i show "Version r = int i + 1 \<longrightarrow> Name r \<noteq> Name x"
      by simp
  qed
  have "upsert x (take i recs @ recs ! i # drop (Suc i) recs) =
      take i recs @ (recs ! i)\<lparr>Status := Status x, StatusChangeTime := StatusChangeTime x\<rparr> # drop (Suc i) recs"
    using first inStep_Version [OF s i] v n
    by (intro upsert_hit [where v = "int i + 1" and n = "Name x"]) simp_all
  with dec show ?thesis
    using i by (simp add: upd_conv_take_nth_drop)
qed

lemma upsert_inStep_miss:
  assumes s: "inStep names recs" and v: "Version x = int (length recs) + 1"
  shows "upsert x recs = recs @ [x]"
proof (rule upsert_miss)
  show "\<forall>r\<in>set recs. \<not> (Version r = Version x \<and> Name r = Name x)"
  proof
    fix r assume "r \<in> set recs"
    then obtain j where "j < length recs" "r = recs ! j"
      by (auto simp: in_set_conv_nth)
    with inStep_Version [OF s, of j] v show "\<not> (Version r = Version x \<and> Name r = Name x)"
      by simp
  qed
qed


lemma up_step:
  assumes ins: "\<forall>x. insertErr e x = None"
    and ok: "action_err e (Up mig) (UpGo mig) = None"
    and s: "inStep names (records w)" and i: "i \<le> length (records w)" "i < length names"
    and v: "Version mig = int i + 1" and n: "Name mig = names ! i"
  shows "fst (upMigration e mig (Up mig) (UpGo mig) w) = None"
    and "fst (snd (upMigration e mig (Up mig) (UpGo mig) w)) =
           mig\<lparr>Status := StatusSuccess, StatusChangeTime := Suc (clock w)\<rparr>"
    and "records (snd (snd (upMigration e mig (Up mig) (UpGo mig) w))) =
           (if i < length (records w)
            then (records w)[i := (records w ! i)\<lparr>Status := StatusSuccess,
                                   StatusChangeTime := Suc (clock w)\<rparr>]
            else records w @ [mig\<lparr>Status := StatusSuccess, StatusChangeTime := Suc (clock w)\<rparr>])"
proof -
  let ?recs = "records w"
  let ?m1 = "mig\<lparr>Status := StatusProcess, StatusChangeTime := clock w\<rparr>"
  let ?m2 = "mig\<lparr>Status := StatusSuccess, StatusChangeTime := Suc (clock w)\<rparr>"
  have res: "upMigration e mig (Up mig) (UpGo mig) w =
      (None, ?m2, w\<lparr>clock := Suc (Suc (clock w)),
          trace := trace w @ EvInsert (Version mig) (Name mig) StatusProcess #
                     action_trace (Up mig) (UpGo mig) @
                     [EvInsert (Version mig) (Name mig) StatusSuccess],
          records := upsert ?m2 (upsert ?m1 ?recs)\<rparr>)"
    by (simp add: upMigration_def executeMigration_eq ins ok Let_def)
  show "fst (upMigration e mig (Up mig) (UpGo mig) w) = None"
    and "fst (snd (upMigration e mig (Up mig) (UpGo mig) w)) = ?m2"
    by (simp_all add: res)
  have ups: "upsert ?m2 (upsert ?m1 ?recs) =
           (if i < length ?recs
            then ?recs[i := (?recs ! i)\<lparr>Status := StatusSuccess, StatusChangeTime := Suc (clock w)\<rparr>]
            else ?recs @ [?m2])"
  proof (cases "i < length ?recs")
    case True
    have nm: "Name (?recs ! i) = names ! i"
      using inStep_Name [OF s True i(2)] .
    have 1: "upsert ?m1 ?recs =
        ?recs[i := (?recs ! i)\<lparr>Status := StatusProcess, StatusChangeTime := clock w\<rparr>]"
      using upsert_inStep_hit [OF s True, of ?m1] v n nm by simp
    let ?r1 = "?recs[i := (?recs ! i)\<lparr>Status := StatusProcess, StatusChangeTime := clock w\<rparr>]"
    have s1: "inStep names ?r1"
    proof (rule inStepI)
      fix j assume "j < length ?r1"
      then show "Version (?r1 ! j) = int j + 1"
        using inStep_Version [OF s, of j] by (cases "j = i") simp_all
    next
      fix j assume "j < length ?r1" "j < length names"
      then show "Name (?r1 ! j) = names ! j"
        using inStep_Name [OF s, of j] by (cases "j = i") simp_all
    qed
    have i1: "i < length ?r1" using True by simp
    have 2: "upsert ?m2 ?r1 =
        ?r1[i := (?r1 ! i)\<lparr>Status := StatusSuccess, StatusChangeTime := Suc (clock w)\<rparr>]"
      using upsert_inStep_hit [OF s1 i1, of ?m2] v n nm True by simp
    from 1 2 True show ?thesis by simp
  next
    case False
    with i have eq: "i = length ?recs" by simp
    have 1: "upsert ?m1 ?recs = ?recs @ [?m1]"
      using upsert_inStep_miss [OF s, of ?m1] v eq by simp
    have fresh: "\<forall>r\<in>set ?recs. Version r = Version mig \<longrightarrow> Name r \<noteq> Name mig"
    proof
      fix r assume "r \<in> set ?recs"
      then obtain j where "j < length ?recs" "r = ?recs ! j"
        by (auto simp: in_set_conv_nth)
      with inStep_Version [OF s, of j] v eq
      show "Version r = Version mig \<longrightarrow> Name r \<noteq> Name mig"
        by simp
    qed
    have 2: "upsert ?m2 (?recs @ [?m1]) = ?recs @ [?m2]"
      using upsert_hit [OF fresh, of ?m1 ?m2 "[]"] by simp
    from 1 2 False show ?thesis by simp
  qed
  show "records (snd (snd (upMigration e mig (Up mig) (UpGo mig) w))) =
           (if i < length ?recs
            then ?recs[i := (?recs ! i)\<lparr>Status := StatusSuccess, StatusChangeTime := Suc (clock w)\<rparr>]
            else ?recs @ [?m2])"
    using ups by (simp add: res)
qed


lemma Up_loop_done: "int (length (migrations m)) \<le> i \<Longrightarrow> Up_loop e i m = (None, m)"
  by (simp add: Up_loop.simps)

lemma Up_loop_inStep:
  assumes ins: "\<forall>x. insertErr e x = None"
  shows "length (migrations m) - k = n \<Longrightarrow>
     \<forall>j<length (migrations m).
        action_err e (Up (migrations m ! j)) (UpGo (migrations m ! j)) = None \<Longrightarrow>
     dense (migrations m) \<Longrightarrow>
     inStep (map Name (migrations m)) (records (storage m)) \<Longrightarrow>
     k \<le> length (records (storage m)) \<Longrightarrow>
     \<forall>j<length (records (storage m)).
        length (migrations m) \<le> j \<longrightarrow> Status (records (storage m) ! j) \<noteq> StatusSuccess \<Longrightarrow>
     fst (Up_loop e (int k) m) = None
     \<and> length (migrations (snd (Up_loop e (int k) m))) = length (migrations m)
     \<and> (k < length (migrations m) \<longrightarrow>
          length (migrations m) \<le> length (records (storage (snd (Up_loop e (int k) m))))
          \<and> Status (records (storage (snd (Up_loop e (int k) m))) ! (length (migrations m) - 1))
              = StatusSuccess
          \<and> Version (records (storage (snd (Up_loop e (int k) m))) ! (length (migrations m) - 1))
              = int (length (migrations m))
          \<and> (\<forall>j<length (records (storage (snd (Up_loop e (int k) m)))).
                length (migrations m) \<le> j \<longrightarrow>
                Status (records (storage (snd (Up_loop e (int k) m))) ! j) \<noteq> StatusSuccess))"
proof (induction n arbitrary: k m)
  case 0
  then have "int (length (migrations m)) \<le> int k" by simp
  then show ?case using 0 by (simp add: Up_loop_done)
next
  case (Suc n)
  let ?ms = "migrations m"
  let ?N = "length ?ms"
  let ?w = "storage m"
  let ?recs = "records ?w"
  let ?mig = "?ms ! k"
  let ?mig' = "?mig\<lparr>Status := StatusSuccess, StatusChangeTime := Suc (clock ?w)\<rparr>"
  let ?w' = "snd (snd (upMigration e ?mig (Up ?mig) (UpGo ?mig) ?w))"
  let ?m2 = "m\<lparr>migrations := ?ms[k := ?mig'], storage := ?w'\<rparr>"
  let ?recs' = "records ?w'"
  from Suc.prems(1) have k: "k < ?N" by simp
  have ok: "action_err e (Up ?mig) (UpGo ?mig) = None"
    using Suc.prems(2) k by simp
  have v: "Version ?mig = int k + 1"
    using dense_nth [OF Suc.prems(3) k] .
  have nm: "Name ?mig = map Name ?ms ! k"
    using k by simp
  have kn: "k < length (map Name ?ms)" using k by simp
  note step = up_step [OF ins ok Suc.prems(4) Suc.prems(5) kn v nm]
  have unfold: "Up_loop e (int k) m = Up_loop e (int (Suc k)) ?m2"
    using k step(1,2)
    by (subst Up_loop.simps) (simp add: Let_def case_prod_beta add.commute)
  have recs': "?recs' = (if k < length ?recs
            then ?recs[k := (?recs ! k)\<lparr>Status := StatusSuccess, StatusChangeTime := Suc (clock ?w)\<rparr>]
            else ?recs @ [?mig'])"
    using step(3) .
  have len': "length ?recs' = max (length ?recs) (Suc k)"
    using Suc.prems(5) by (simp add: recs')
  have stk: "Status (?recs' ! k) = StatusSuccess"
    using Suc.prems(5) by (simp add: recs' nth_append)
  have same: "?recs' ! j = ?recs ! j" if "j < length ?recs'" "j \<noteq> k" for j
    using that Suc.prems(5) by (auto simp: recs' nth_append split: if_splits)
  have inlen: "j < length ?recs" if "j < length ?recs'" "j \<noteq> k" for j
    using that Suc.prems(5) by (auto simp: recs' split: if_splits)
  have names2: "map Name (migrations ?m2) = map Name ?ms"
    using k by (simp add: map_update list_update_same_conv)
  have step': "inStep (map Name ?ms) ?recs'"
  proof (rule inStepI)
    fix j assume j: "j < length ?recs'"
    show "Version (?recs' ! j) = int j + 1"
    proof (cases "j = k")
      case True
      then show ?thesis
        using inStep_Version [OF Suc.prems(4), of k] v Suc.prems(5)
        by (auto simp: recs' nth_append)
    next
      case False
      with same [OF j] inlen [OF j] inStep_Version [OF Suc.prems(4), of j] show ?thesis by simp
    qed
  next
    fix j assume j: "j < length ?recs'" "j < length (map Name ?ms)"
    show "Name (?recs' ! j) = map Name ?ms ! j"
    proof (cases "j = k")
      case True
      then show ?thesis
        using inStep_Name [OF Suc.prems(4), of k] k Suc.prems(5)
        by (auto simp: recs' nth_append)
    next
      case False
      with same [OF j(1)] inlen [OF j(1)] inStep_Name [OF Suc.prems(4), of j] j(2)
      show ?thesis by simp
    qed
  qed
  have p1: "length (migrations ?m2) - Suc k = n"
    using Suc.prems(1) by simp
  have p2: "\<forall>j<length (migrations ?m2).
        action_err e (Up (migrations ?m2 ! j)) (UpGo (migrations ?m2 ! j)) = None"
    using Suc.prems(2) k by (auto simp: nth_list_update)
  have vers2: "map Version (migrations ?m2) = map Version ?ms"
    using k by (simp add: map_update list_update_same_conv)
  have p3: "dense (migrations ?m2)"
    using Suc.prems(3) vers2 by (simp add: dense_def del: upt_Suc)
  have p4: "inStep (map Name (migrations ?m2)) (records (storage ?m2))"
    using step' names2 by simp
  have p5: "Suc k \<le> length (records (storage ?m2))"
    by (simp add: len')
  have p6: "\<forall>j<length (records (storage ?m2)).
        length (migrations ?m2) \<le> j \<longrightarrow> Status (records (storage ?m2) ! j) \<noteq> StatusSuccess"
  proof (intro allI impI)
    fix j assume j: "j < length (records (storage ?m2))" "length (migrations ?m2) \<le> j"
    then have jk: "j \<noteq> k" using k by simp
    from j have j': "j < length ?recs'" by simp
    from same [OF j' jk] inlen [OF j' jk] Suc.prems(6) j(2)
    show "Status (records (storage ?m2) ! j) \<noteq> StatusSuccess" by simp
  qed
  note IH = Suc.IH [OF p1 p2 p3 p4 p5 p6]
  show ?case
  proof (cases "Suc k < ?N")
    case True
    with IH show ?thesis by (simp add: unfold)
  next
    case False
    with k have eq: "Suc k = ?N" by simp
    then have fin: "Up_loop e (int (Suc k)) ?m2 = (None, ?m2)"
      by (simp add: Up_loop_done)
    have a: "?N \<le> length ?recs'" using eq by (simp add: len')
    have b: "Status (?recs' ! (?N - 1)) = StatusSuccess"
      using stk eq by (metis diff_Suc_1)
    have c: "Version (?recs' ! (?N - 1)) = int ?N"
      using inStep_Version [OF step', of k] eq a by (metis diff_Suc_1 Suc_le_lessD of_nat_Suc add.commute)
    from p6 have d: "\<forall>j<length ?recs'. ?N \<le> j \<longrightarrow> Status (?recs' ! j) \<noteq> StatusSuccess"
      by simp
    from a b c d show ?thesis
      unfolding unfold fin by simp
  qed
qed


lemma find_rev_decomp:
  "List.find P (rev xs) = Some x \<Longrightarrow>
   \<exists>pre post. xs = pre @ x # post \<and> P x \<and> (\<forall>r\<in>set post. \<not> P r)"
proof (induction xs rule: rev_induct)
  case Nil
  then show ?case by simp
next
  case (snoc y ys)
  show ?case
  proof (cases "P y")
    case True
    with snoc.prems have "x = y" by simp
    with True have "ys @ [y] = ys @ x # [] \<and> P x \<and> (\<forall>r\<in>set []. \<not> P r)" by simp
    then show ?thesis by blast
  next
    case False
    with snoc.prems have "List.find P (rev ys) = Some x" by simp
    from snoc.IH [OF this] obtain pre post
      where "ys = pre @ x # post" "P x" "\<forall>r\<in>set post. \<not> P r" by blast
    with False have "ys @ [y] = pre @ x # (post @ [y]) \<and> P x \<and> (\<forall>r\<in>set (post @ [y]). \<not> P r)"
      by simp
    then show ?thesis by blast
  qed
qed

lemma lastSuccess_records:
  "records w = records w' \<Longrightarrow> lastSuccess e w = lastSuccess e w'"
  by (simp add: lastSuccess_def SelectLastMigrationByStatus_def)

lemma versionMismatch_length:
  "length (migrations m) = length (migrations m') \<Longrightarrow>
   versionMismatch lmo m = versionMismatch lmo m'"
  by (simp add: versionMismatch_def split: option.splits)

lemma Up_noop_when_current:
  assumes lock: "lockErr e = None"
    and ls: "lastSuccess e (storage m1) = Inr (L, lmo)"
    and cur: "int (length (migrations m1)) \<le> L"
    and mm: "\<not> versionMismatch lmo m1"
  shows "fst (Migrator_Up e m1) = None
     \<and> migrations (snd (Migrator_Up e m1)) = migrations m1
     \<and> records (storage (snd (Migrator_Up e m1))) = records (storage m1)
     \<and> trace (storage (snd (Migrator_Up e m1))) = trace (storage m1) @ EvLock # unlocking e"
proof -
  let ?w = "(storage m1)\<lparr>lockHeld := True, trace := trace (storage m1) @ [EvLock]\<rparr>"
  have ls': "lastSuccess e ?w = Inr (L, lmo)"
    using ls lastSuccess_records [of ?w "storage m1" e] by simp
  have mm': "\<not> versionMismatch lmo (m1\<lparr>storage := ?w\<rparr>)"
    using mm versionMismatch_length [of "m1\<lparr>storage := ?w\<rparr>" m1 lmo] by simp
  have up: "Up_locked e (m1\<lparr>storage := ?w\<rparr>) = (None, m1\<lparr>storage := ?w\<rparr>)"
    using ls' mm' cur by (simp add: Up_locked_def Up_loop_done)
  show ?thesis
    by (simp add: Migrator_Up_def Lock_def lock up deferUnlock_def Unlock_frame)
qed

text \<open>
  \<open>Up\<close> and \<open>Down\<close> hold the lock around everything they do: between taking and
  releasing it the trace holds status writes and migration bodies only.
\<close>

lemma transition_events: "\<forall>ev\<in>set (transition e mig sql g ps ss es t). isWrite ev \<or> isBody ev"
  by (auto simp: transition_def action_trace_def split: option.splits)

lemma Up_loop_trace:
  "\<exists>tr. trace (storage (snd (Up_loop e i m))) = trace (storage m) @ tr
        \<and> (\<forall>ev\<in>set tr. isWrite ev \<or> isBody ev)"
proof (induction e i m rule: Up_loop.induct)
  case (1 e i m)
  show ?case
  proof (cases "i < int (length (migrations m)) \<and> \<not> i < 0")
    case False
    then have "snd (Up_loop e i m) = m"
      by (subst Up_loop.simps) auto
    then show ?thesis by simp
  next
    case True
    let ?mig = "migrations m ! nat i"
    let ?r = "upMigration e ?mig (Up ?mig) (UpGo ?mig) (storage m)"
    let ?m' = "m\<lparr>migrations := (migrations m)[nat i := fst (snd ?r)], storage := snd (snd ?r)\<rparr>"
    have tr1: "trace (storage ?m') =
        trace (storage m) @ upTransition e ?mig (clock (storage m))"
      by (simp add: upMigration_def upTransition_def executeMigration_trace)
    have ev1: "\<forall>ev\<in>set (upTransition e ?mig (clock (storage m))). isWrite ev \<or> isBody ev"
      unfolding upTransition_def by (rule transition_events)
    show ?thesis
    proof (cases "fst ?r")
      case (Some err)
      with True have "snd (Up_loop e i m) = ?m'"
        by (subst Up_loop.simps) (simp add: Let_def case_prod_beta)
      with tr1 ev1 show ?thesis by metis
    next
      case None
      with True have eq: "Up_loop e i m = Up_loop e (i + 1) ?m'"
        by (subst Up_loop.simps) (simp add: Let_def case_prod_beta)
      from True None have "\<exists>tr. trace (storage (snd (Up_loop e (i + 1) ?m'))) = trace (storage ?m') @ tr
        \<and> (\<forall>ev\<in>set tr. isWrite ev \<or> isBody ev)"
        by (intro "1.IH" [of ?mig ?r "fst ?r" "snd ?r" "fst (snd ?r)" "snd (snd ?r)" ?m'])
          (simp_all add: prod_eq_iff)
      then obtain tr where tr: "trace (storage (snd (Up_loop e (i + 1) ?m'))) = trace (storage ?m') @ tr"
        and ev: "\<forall>ev\<in>set tr. isWrite ev \<or> isBody ev" by blast
      have "trace (storage (snd (Up_loop e i m))) =
          trace (storage m) @ (upTransition e ?mig (clock (storage m)) @ tr)"
        using tr tr1 by (simp add: eq)
      moreover have "\<forall>ev\<in>set (upTransition e ?mig (clock (storage m)) @ tr). isWrite ev \<or> isBody ev"
        using ev ev1 by auto
      ultimately show ?thesis by blast
    qed
  qed
qed

lemma underLock_bracket:
  "\<forall>ev\<in>set tr. isWrite ev \<or> isBody ev \<Longrightarrow> underLock True (tr @ unlocking e)"
proof (induction tr)
  case Nil
  then show ?case by (simp add: unlocking_def split: option.splits)
next
  case (Cons ev tr)
  then show ?case by (cases ev) simp_all
qed

lemma Up_holds_lock:
  assumes lock: "lockErr e = None"
  shows "\<exists>tr. trace (storage (snd (Migrator_Up e m))) = trace (storage m) @ EvLock # tr @ unlocking e
         \<and> (\<forall>ev\<in>set tr. isWrite ev \<or> isBody ev) \<and> underLock False (EvLock # tr @ unlocking e)"
proof -
  let ?m0 = "m\<lparr>storage := (storage m)\<lparr>lockHeld := True, trace := trace (storage m) @ [EvLock]\<rparr>\<rparr>"
  have "\<exists>tr. trace (storage (snd (Up_locked e ?m0))) = trace (storage ?m0) @ tr
        \<and> (\<forall>ev\<in>set tr. isWrite ev \<or> isBody ev)"
  proof (cases "\<exists>L lmo. lastSuccess e (storage ?m0) = Inr (L, lmo) \<and> \<not> versionMismatch lmo ?m0")
    case True
    then obtain L lmo where "Up_locked e ?m0 = Up_loop e L ?m0"
      by (auto simp: Up_locked_def)
    with Up_loop_trace [of e L ?m0] show ?thesis by simp
  next
    case False
    then have "snd (Up_locked e ?m0) = ?m0"
      by (cases "lastSuccess e (storage ?m0)") (auto simp: Up_locked_def)
    then show ?thesis by simp
  qed
  then obtain tr where tr: "trace (storage (snd (Up_locked e ?m0))) = trace (storage ?m0) @ tr"
    and ev: "\<forall>ev\<in>set tr. isWrite ev \<or> isBody ev" by blast
  have "trace (storage (snd (Migrator_Up e m))) = trace (storage m) @ EvLock # tr @ unlocking e"
    using tr by (simp add: Migrator_Up_def Lock_def lock deferUnlock_def Unlock_frame)
  with ev underLock_bracket [OF ev, of e] show ?thesis by simp
qed

lemma Down_holds_lock:
  assumes lock: "lockErr e = None"
  shows "\<exists>tr. trace (storage (snd (Migrator_Down e m))) = trace (storage m) @ EvLock # tr @ unlocking e
         \<and> (\<forall>ev\<in>set tr. isWrite ev \<or> isBody ev) \<and> underLock False (EvLock # tr @ unlocking e)"
proof -
  define tr where "tr =
       (case SelectLastMigrationByStatus e StatusSuccess (storage m) of
          Inl err \<Rightarrow> []
        | Inr lm \<Rightarrow>
            if Version lm > int (length (migrations m)) \<or> int64 (Version lm - 1) < 0
               \<or> int (length (migrations m)) \<le> int64 (Version lm - 1) then []
            else downTransition e (migrations m ! nat (int64 (Version lm - 1))) (clock (storage m)))"
  have tr: "trace (storage (snd (Migrator_Down e m))) = trace (storage m) @ EvLock # tr @ unlocking e"
    by (simp add: Migrator_Down_trace [OF lock] tr_def)
  have ev: "\<forall>ev\<in>set tr. isWrite ev \<or> isBody ev"
  proof (cases "SelectLastMigrationByStatus e StatusSuccess (storage m)")
    case (Inl err)
    then show ?thesis by (simp add: tr_def)
  next
    case (Inr lm)
    then show ?thesis
      using transition_events [of e "migrations m ! nat (int64 (Version lm - 1))"]
      by (simp add: tr_def downTransition_def)
  qed
  from tr ev underLock_bracket [OF ev, of e] show ?thesis by simp
qed

section \<open>Up after a failed script\<close>

text \<open>
  C1 does not hold of the code. Registry a, b, c, the store holding a as Success, the Go
  script of b failing: \<open>Up\<close> records b as Error, but \<open>executeMigration\<close> returns the
  (nil) error of that write, so \<open>Up\<close> goes on to c, returns nil, and \<open>DBVersion\<close>
  reports 3.
\<close>

theorem Up_goes_on_after_failed_script:
  "fst (Migrator_Up (MockSQLStorage (failing ''2_b_up.go''))
          (registry3go (history [CreateMigration ''a'' StatusSuccess 1 0]))) = None
   \<and> trace (storage (snd (Migrator_Up (MockSQLStorage (failing ''2_b_up.go''))
          (registry3go (history [CreateMigration ''a'' StatusSuccess 1 0]))))) =
      [EvLock, EvInsert 2 ''b'' StatusProcess, EvGo ''2_b_up.go'', EvInsert 2 ''b'' StatusError,
       EvInsert 3 ''c'' StatusProcess, EvMigrate ''CREATE c'', EvInsert 3 ''c'' StatusSuccess,
       EvUnlock]
   \<and> Migrator_DBVersion (MockSQLStorage (failing ''2_b_up.go''))
        (snd (Migrator_Up (MockSQLStorage (failing ''2_b_up.go''))
          (registry3go (history [CreateMigration ''a'' StatusSuccess 1 0])))) = Inr 3"
  by (simp add: ex_defs run_defs Up_loop.simps)

section \<open>The version check of Up\<close>

text \<open>
  C2 does not hold of \<open>Up\<close>. A registry of one migration and a store whose last Success
  record has version 2: \<open>Up\<close> compares \<open>GetVersion() - 1\<close> with the size of the
  registry and returns nil, where \<open>Down\<close> returns the version-mismatch error.
\<close>

theorem Up_accepts_version_past_registry:
  "SelectLastMigrationByStatus (MockSQLStorage succeeding) StatusSuccess
      (history [CreateMigration ''a'' StatusSuccess 1 0, CreateMigration ''b'' StatusSuccess 2 1])
     = Inr (CreateMigration ''b'' StatusSuccess 2 1)
   \<and> length (migrations (registry1 (history
        [CreateMigration ''a'' StatusSuccess 1 0, CreateMigration ''b'' StatusSuccess 2 1]))) = 1
   \<and> fst (Migrator_Up (MockSQLStorage succeeding) (registry1 (history
        [CreateMigration ''a'' StatusSuccess 1 0, CreateMigration ''b'' StatusSuccess 2 1]))) = None
   \<and> fst (Migrator_Down (MockSQLStorage succeeding) (registry1 (history
        [CreateMigration ''a'' StatusSuccess 1 0, CreateMigration ''b'' StatusSuccess 2 1])))
     = Some ErrUnexpectedMigrationVersion"
  by (simp add: ex_defs run_defs Up_loop.simps)

section \<open>Down rolls back one migration\<close>

text \<open>
  C3. With the lock free and a store that reports the not-found error: when no record has
  status Success, \<open>Down\<close> returns success and is a no-op (registry and records unchanged,
  nothing in the trace but taking and releasing the lock). When the last Success record
  holds a version of the (dense) registry, \<open>Down\<close> runs exactly one down transition, that
  of the registry's migration of this version, between taking and releasing the lock. In
  every case \<open>Down\<close> runs at most one migration body, never a range.
\<close>

theorem Down_rolls_back_one_migration:
  assumes lock: "lockErr e = None" and nf: "notFound e = ErrMigrationNotFound"
  shows "((\<forall>r\<in>set (records (storage m)). Status r \<noteq> StatusSuccess) \<longrightarrow>
            fst (Migrator_Down e m) = None
            \<and> migrations (snd (Migrator_Down e m)) = migrations m
            \<and> records (storage (snd (Migrator_Down e m))) = records (storage m)
            \<and> trace (storage (snd (Migrator_Down e m))) = trace (storage m) @ EvLock # unlocking e)
       \<and> (\<forall>pre lm post.
            records (storage m) = pre @ lm # post \<and> Status lm = StatusSuccess
            \<and> (\<forall>r\<in>set post. Status r \<noteq> StatusSuccess)
            \<and> 1 \<le> Version lm \<and> Version lm \<le> int (length (migrations m)) \<and> Version lm < 2 ^ 63
            \<and> dense (migrations m) \<longrightarrow>
            Version (migrations m ! nat (Version lm - 1)) = Version lm
            \<and> trace (storage (snd (Migrator_Down e m))) =
                trace (storage m) @ EvLock #
                  downTransition e (migrations m ! nat (Version lm - 1)) (clock (storage m))
                  @ unlocking e)
       \<and> length (bodies (trace (storage (snd (Migrator_Down e m)))))
           \<le> length (bodies (trace (storage m))) + 1"
proof (intro conjI impI allI)
  assume none: "\<forall>r\<in>set (records (storage m)). Status r \<noteq> StatusSuccess"
  from Migrator_Down_noop [OF lock nf none]
  show "fst (Migrator_Down e m) = None"
    and "migrations (snd (Migrator_Down e m)) = migrations m"
    and "records (storage (snd (Migrator_Down e m))) = records (storage m)"
    by simp_all
  from none show "trace (storage (snd (Migrator_Down e m))) = trace (storage m) @ EvLock # unlocking e"
    by (simp add: Migrator_Down_trace [OF lock] Select_none)
next
  fix pre lm post
  assume h: "records (storage m) = pre @ lm # post \<and> Status lm = StatusSuccess
            \<and> (\<forall>r\<in>set post. Status r \<noteq> StatusSuccess)
            \<and> 1 \<le> Version lm \<and> Version lm \<le> int (length (migrations m)) \<and> Version lm < 2 ^ 63
            \<and> dense (migrations m)"
  then have sel: "SelectLastMigrationByStatus e StatusSuccess (storage m) = Inr lm"
    by (simp add: Select_last)
  from h have idx: "int64 (Version lm - 1) = Version lm - 1"
    by (simp add: int64_id)
  from h have "nat (Version lm - 1) < length (migrations m)"
    by linarith
  with h dense_nth [of "migrations m" "nat (Version lm - 1)"]
  show "Version (migrations m ! nat (Version lm - 1)) = Version lm"
    by simp
  from h show "trace (storage (snd (Migrator_Down e m))) =
                trace (storage m) @ EvLock #
                  downTransition e (migrations m ! nat (Version lm - 1)) (clock (storage m))
                  @ unlocking e"
    by (simp add: Migrator_Down_trace [OF lock] sel idx)
next
  show "length (bodies (trace (storage (snd (Migrator_Down e m)))))
           \<le> length (bodies (trace (storage m))) + 1"
    using bodies_transition
    by (simp add: Migrator_Down_trace [OF lock] bodies_def unlocking_def downTransition_def
          split: sum.splits option.splits)
qed

theorem Down_rolls_back_one_migration_witness:
  "fst (Migrator_Down healthy (registry2 (history []))) = None
   \<and> trace (storage (snd (Migrator_Down healthy (registry2 (history []))))) = [EvLock, EvUnlock]
   \<and> trace (storage (snd (Migrator_Down healthy (registry2 (history
        [CreateMigration ''a'' StatusSuccess 1 0, CreateMigration ''b'' StatusSuccess 2 1]))))) =
      [EvLock, EvInsert 2 ''b'' StatusCancellation, EvMigrate ''DROP b'',
       EvInsert 2 ''b'' StatusCancel, EvUnlock]"
proof -
  let ?m0 = "registry2 (history [])"
  let ?m2 = "registry2 (history
        [CreateMigration ''a'' StatusSuccess 1 0, CreateMigration ''b'' StatusSuccess 2 1])"
  have lock: "lockErr healthy = None" and nf: "notFound healthy = ErrMigrationNotFound"
    by (simp_all add: ev_defs)
  have none: "\<forall>r\<in>set (records (storage ?m0)). Status r \<noteq> StatusSuccess"
    by (simp add: ev_defs)
  from Down_rolls_back_one_migration [OF lock nf, of ?m0] none
  have a: "fst (Migrator_Down healthy ?m0) = None
      \<and> trace (storage (snd (Migrator_Down healthy ?m0))) = trace (storage ?m0) @ EvLock # unlocking healthy"
    by blast
  have h: "records (storage ?m2) = [CreateMigration ''a'' StatusSuccess 1 0] @ CreateMigration ''b'' StatusSuccess 2 1 # []
      \<and> Status (CreateMigration ''b'' StatusSuccess 2 1) = StatusSuccess
      \<and> (\<forall>r\<in>set []. Status r \<noteq> StatusSuccess)
      \<and> 1 \<le> Version (CreateMigration ''b'' StatusSuccess 2 1)
      \<and> Version (CreateMigration ''b'' StatusSuccess 2 1) \<le> int (length (migrations ?m2))
      \<and> Version (CreateMigration ''b'' StatusSuccess 2 1) < 2 ^ 63
      \<and> dense (migrations ?m2)"
    by (simp add: ev_defs)
  from Down_rolls_back_one_migration [OF lock nf, of ?m2] h
  have b: "trace (storage (snd (Migrator_Down healthy ?m2))) =
                trace (storage ?m2) @ EvLock #
                  downTransition healthy (migrations ?m2 ! nat (Version (CreateMigration ''b'' StatusSuccess 2 1) - 1)) (clock (storage ?m2))
                  @ unlocking healthy"
    by blast
  from a have a': "fst (Migrator_Down healthy ?m0) = None
      \<and> trace (storage (snd (Migrator_Down healthy ?m0))) = [EvLock, EvUnlock]"
    by (simp add: ev_defs)
  from b have b': "trace (storage (snd (Migrator_Down healthy ?m2))) =
      [EvLock, EvInsert 2 ''b'' StatusCancellation, EvMigrate ''DROP b'',
       EvInsert 2 ''b'' StatusCancel, EvUnlock]"
    by (simp add: ev_defs)
  from a' b' show ?thesis by blast
qed

section \<open>Redo\<close>

text \<open>
  C4 does not hold for every history. Registry a, b, c and a store that holds a and c as
  Success, in this order: the last successful migration is version 3, \<open>Redo\<close> rolls
  version 3 back, reads the last Success record again, finds version 1, and applies the
  migration at index 1, which is version 2.
\<close>

theorem Redo_reapplies_other_version:
  "SelectLastMigrationByStatus (MockSQLStorage succeeding) StatusSuccess
      (history [CreateMigration ''a'' StatusSuccess 1 0, CreateMigration ''c'' StatusSuccess 3 1])
     = Inr (CreateMigration ''c'' StatusSuccess 3 1)
   \<and> trace (storage (snd (Migrator_Redo (MockSQLStorage succeeding) (registry3 (history
        [CreateMigration ''a'' StatusSuccess 1 0, CreateMigration ''c'' StatusSuccess 3 1]))))) =
      [EvLock, EvInsert 3 ''c'' StatusCancellation, EvMigrate ''DROP c'',
       EvInsert 3 ''c'' StatusCancel, EvUnlock,
       EvInsert 2 ''b'' StatusProcess, EvMigrate ''CREATE b'', EvInsert 2 ''b'' StatusSuccess]"
  by (simp add: ex_defs run_defs)

text \<open>
  C4, amended. \<open>Redo\<close> takes the index of the migration to apply from the last Success
  record that is left after \<open>Down\<close>. Let the last Success record hold version V of a
  dense registry under the registry's name, be the first record of that version and name,
  and let the last Success record before it hold V - 1 (none when V = 1). With the lock
  free, a store that reports the not-found error and accepts every write, and a down
  script that succeeds, \<open>Redo\<close> is \<open>Down\<close> rolling back V, the release of the lock,
  and then one up transition of the same version V.
\<close>

theorem Redo_reapplies_rolled_back_version:
  assumes lock: "lockErr e = None" and nf: "notFound e = ErrMigrationNotFound"
    and ins: "\<forall>x. insertErr e x = None"
    and recs: "records (storage m) = pre @ lm # post"
    and lm: "Status lm = StatusSuccess" and post: "\<forall>r\<in>set post. Status r \<noteq> StatusSuccess"
    and V: "1 \<le> Version lm" "Version lm \<le> int (length (migrations m))" "Version lm < 2 ^ 63"
    and dense: "dense (migrations m)"
    and name: "Name (migrations m ! nat (Version lm - 1)) = Name lm"
    and first: "\<forall>r\<in>set pre. Version r = Version lm \<longrightarrow> Name r \<noteq> Name lm"
    and prev: "lastSuccessVersion pre = Version lm - 1"
    and downOK: "action_err e (Down (migrations m ! nat (Version lm - 1)))
                   (DownGo (migrations m ! nat (Version lm - 1))) = None"
  shows "trace (storage (snd (Migrator_Redo e m))) =
     trace (storage m) @
       [EvLock, EvInsert (Version lm) (Name lm) StatusCancellation] @
       action_trace (Down (migrations m ! nat (Version lm - 1)))
         (DownGo (migrations m ! nat (Version lm - 1))) @
       [EvInsert (Version lm) (Name lm) StatusCancel] @
       unlocking e @
       [EvInsert (Version lm) (Name lm) StatusProcess] @
       action_trace (Up (migrations m ! nat (Version lm - 1)))
         (UpGo (migrations m ! nat (Version lm - 1))) @
       [EvInsert (Version lm) (Name lm)
          (if action_err e (Up (migrations m ! nat (Version lm - 1)))
                (UpGo (migrations m ! nat (Version lm - 1))) = None
           then StatusSuccess else StatusError)]"
proof -
  let ?i = "nat (Version lm - 1)"
  let ?mig = "migrations m ! ?i"
  let ?w = "storage m"
  let ?lm' = "lm\<lparr>Status := StatusCancel, StatusChangeTime := Suc (clock ?w)\<rparr>"
  let ?mig' = "?mig\<lparr>Status := StatusCancel, StatusChangeTime := Suc (clock ?w)\<rparr>"
  define w1 where "w1 = snd (Unlock e (?w\<lparr>lockHeld := True, clock := Suc (Suc (clock ?w)),
             trace := trace ?w @ EvLock # downTransition e ?mig (clock ?w),
             records := pre @ ?lm' # post\<rparr>))"
  define m1 where "m1 = m\<lparr>migrations := (migrations m)[?i := ?mig'], storage := w1\<rparr>"
  have down: "Migrator_Down e m = (None, m1)"
    using Migrator_Down_hit [OF lock ins recs lm post V dense name first]
    by (simp add: downOK Let_def m1_def w1_def)
  have w1: "records w1 = pre @ ?lm' # post" "clock w1 = Suc (Suc (clock ?w))"
    "trace w1 = trace ?w @ EvLock # downTransition e ?mig (clock ?w) @ unlocking e"
    by (simp_all add: w1_def Unlock_frame)
  have m1: "migrations m1 = (migrations m)[?i := ?mig']" "storage m1 = w1"
    by (simp_all add: m1_def)
  have i: "?i < length (migrations m)" using V by linarith
  have ver: "Version ?mig = Version lm"
    using dense_nth [OF dense i] V by simp
  have find1: "List.find (\<lambda>r. Status r = StatusSuccess) (rev (records w1))
      = List.find (\<lambda>r. Status r = StatusSuccess) (rev pre)"
    using find_rev_skip [of post "\<lambda>r. Status r = StatusSuccess" ?lm' pre] post
    by (simp add: w1)
  have last: "\<exists>lmo. lastSuccess e w1 = Inr (Version lm - 1, lmo) \<and> \<not> versionMismatch lmo m1"
  proof (cases "List.find (\<lambda>r. Status r = StatusSuccess) (rev pre)")
    case None
    with prev have "Version lm - 1 = 0" by (simp add: lastSuccessVersion_def)
    with None find1 show ?thesis
      by (simp add: lastSuccess_def SelectLastMigrationByStatus_def nf versionMismatch_def)
  next
    case (Some r)
    with prev have r: "Version r = Version lm - 1" by (simp add: lastSuccessVersion_def)
    have "int64 (Version r - 1) = Version r - 1"
      using V r by (simp add: int64_id)
    with Some find1 r V show ?thesis
      by (simp add: lastSuccess_def SelectLastMigrationByStatus_def versionMismatch_def m1)
  qed
  then obtain lmo where ls: "lastSuccess e w1 = Inr (Version lm - 1, lmo)"
    and mm: "\<not> versionMismatch lmo m1" by blast
  have rng: "\<not> Version lm < 1" "\<not> int (length (migrations m)) < Version lm"
    using V by simp_all
  have redo: "trace (storage (snd (Migrator_Redo e m))) =
      trace w1 @ upTransition e ?mig' (clock w1)"
    using i
    by (simp add: Migrator_Redo_def down m1 ls mm rng upMigration_def upTransition_def
          executeMigration_trace Let_def case_prod_beta split: option.splits)
  show ?thesis
    by (simp add: redo w1 upTransition_def downTransition_def transition_def ins downOK ver name)
qed

theorem Redo_reapplies_rolled_back_version_witness:
  "trace (storage (snd (Migrator_Redo healthy (registry2 (history
      [CreateMigration ''a'' StatusSuccess 1 0, CreateMigration ''b'' StatusSuccess 2 1]))))) =
     [EvLock, EvInsert 2 ''b'' StatusCancellation, EvMigrate ''DROP b'',
      EvInsert 2 ''b'' StatusCancel, EvUnlock,
      EvInsert 2 ''b'' StatusProcess, EvMigrate ''CREATE b'', EvInsert 2 ''b'' StatusSuccess]"
proof -
  let ?a = "CreateMigration ''a'' StatusSuccess 1 0"
  let ?b = "CreateMigration ''b'' StatusSuccess 2 1"
  let ?m = "registry2 (history [?a, ?b])"
  have lock: "lockErr healthy = None" and nf: "notFound healthy = ErrMigrationNotFound"
    and ins: "\<forall>x. insertErr healthy x = None"
    by (simp_all add: ev_defs)
  have recs: "records (storage ?m) = [?a] @ ?b # []"
    and lm: "Status ?b = StatusSuccess" and post: "\<forall>r\<in>set []. Status r \<noteq> StatusSuccess"
    by (simp_all add: ev_defs)
  have V: "1 \<le> Version ?b" "Version ?b \<le> int (length (migrations ?m))" "Version ?b < 2 ^ 63"
    by (simp_all add: ev_defs)
  have dense: "dense (migrations ?m)"
    and name: "Name (migrations ?m ! nat (Version ?b - 1)) = Name ?b"
    and first: "\<forall>r\<in>set [?a]. Version r = Version ?b \<longrightarrow> Name r \<noteq> Name ?b"
    and prev: "lastSuccessVersion [?a] = Version ?b - 1"
    and downOK: "action_err healthy (Down (migrations ?m ! nat (Version ?b - 1)))
                   (DownGo (migrations ?m ! nat (Version ?b - 1))) = None"
    by (simp_all add: ev_defs lastSuccessVersion_def)
  from Redo_reapplies_rolled_back_version
    [OF lock nf ins recs lm post V dense name first prev downOK]
  show ?thesis
    by (simp add: ev_defs)
qed

section \<open>The lock during Redo\<close>

text \<open>
  C5 does not hold of \<open>Redo\<close>. Registry a, b, both recorded as Success: the \<open>Down\<close>
  of \<open>Redo\<close> releases the lock when it returns, and the way up of b runs after that,
  with the lock not held.
\<close>

theorem Redo_runs_up_without_lock:
  "trace (storage (snd (Migrator_Redo (MockSQLStorage succeeding) (registry2 (history
        [CreateMigration ''a'' StatusSuccess 1 0, CreateMigration ''b'' StatusSuccess 2 1]))))) =
      [EvLock, EvInsert 2 ''b'' StatusCancellation, EvMigrate ''DROP b'',
       EvInsert 2 ''b'' StatusCancel, EvUnlock,
       EvInsert 2 ''b'' StatusProcess, EvMigrate ''CREATE b'', EvInsert 2 ''b'' StatusSuccess]
   \<and> \<not> underLock False (trace (storage (snd (Migrator_Redo (MockSQLStorage succeeding)
        (registry2 (history
          [CreateMigration ''a'' StatusSuccess 1 0, CreateMigration ''b'' StatusSuccess 2 1]))))))
   \<and> \<not> lockHeld (storage (snd (Migrator_Down (MockSQLStorage succeeding)
        (registry2 (history
          [CreateMigration ''a'' StatusSuccess 1 0, CreateMigration ''b'' StatusSuccess 2 1])))))"
  by (simp add: ex_defs run_defs)

section \<open>The two status writes of a transition\<close>

text \<open>
  C6. Every run of a migration, up or down, writes its status twice around the action: the
  transient status (Process on the way up, Cancellation on the way down) before the action,
  and once the action has ended the terminal status, Success or Cancel when it completed
  and Error when it failed. The trace of the run is the first write, the action, the second
  write, and nothing else; when the first write fails the action is not run and there is
  no second write. The store then holds the record as the last write that succeeded left it.
\<close>

theorem two_status_writes_around_action:
  "trace (snd (snd (upMigration e mig sql g w))) =
     trace w @ EvInsert (Version mig) (Name mig) StatusProcess #
       (if insertErr e (mig\<lparr>Status := StatusProcess, StatusChangeTime := clock w\<rparr>) = None
        then action_trace sql g @
             [EvInsert (Version mig) (Name mig)
                (if action_err e sql g = None then StatusSuccess else StatusError)]
        else [])
   \<and> trace (snd (snd (downMigration e mig sql g w))) =
     trace w @ EvInsert (Version mig) (Name mig) StatusCancellation #
       (if insertErr e (mig\<lparr>Status := StatusCancellation, StatusChangeTime := clock w\<rparr>) = None
        then action_trace sql g @
             [EvInsert (Version mig) (Name mig)
                (if action_err e sql g = None then StatusCancel else StatusError)]
        else [])
   \<and> records (snd (snd (upMigration e mig sql g w))) =
     (let m1 = mig\<lparr>Status := StatusProcess, StatusChangeTime := clock w\<rparr>;
          m2 = mig\<lparr>Status := (if action_err e sql g = None then StatusSuccess else StatusError),
                  StatusChangeTime := Suc (clock w)\<rparr>
      in if insertErr e m1 = None
         then (if insertErr e m2 = None then upsert m2 (upsert m1 (records w))
               else upsert m1 (records w))
         else records w)
   \<and> records (snd (snd (downMigration e mig sql g w))) =
     (let m1 = mig\<lparr>Status := StatusCancellation, StatusChangeTime := clock w\<rparr>;
          m2 = mig\<lparr>Status := (if action_err e sql g = None then StatusCancel else StatusError),
                  StatusChangeTime := Suc (clock w)\<rparr>
      in if insertErr e m1 = None
         then (if insertErr e m2 = None then upsert m2 (upsert m1 (records w))
               else upsert m1 (records w))
         else records w)"
  by (simp add: upMigration_def downMigration_def executeMigration_eq Let_def
        split: option.splits)

section \<open>The order of registration\<close>

text \<open>
  C7 does not hold of the sequence handed to the migrator. \<open>getMigrations\<close> is a
  function of the directory, but \<open>runMigrations\<close> registers the migrations in the order
  in which Go ranges over the map: for the two scripts of \<open>twoFiles\<close>, both orders of
  the keys are possible, and in the second one b is registered as version 1 and a as
  version 2.
\<close>

theorem registration_follows_range_order:
  "getMigrations (Inr twoFiles) = Inr twoFragments
   \<and> rangeOrder [1, 2] twoFragments \<and> rangeOrder [2, 1] twoFragments
   \<and> map Name (migrations (registerAll [1, 2] twoFragments (New (history [])))) = [''a'', ''b'']
   \<and> map Name (migrations (registerAll [2, 1] twoFragments (New (history [])))) = [''b'', ''a'']
   \<and> map Version (migrations (registerAll [2, 1] twoFragments (New (history [])))) = [1, 2]"
proof -
  have "getMigrations (Inr twoFiles) = Inr twoFragments"
    by (simp add: getMigrations_def twoFiles_def twoFragments_def parseFileName_def
          regGetVersion_def isDigit_def Atoi_def decimal_def processMigrationFile_def
          regGetUpMigration_def matchSuffix_def fragment_def Let_def)
  moreover have "rangeOrder [1, 2] twoFragments \<and> rangeOrder [2, 1] twoFragments"
    by (auto simp: rangeOrder_def twoFragments_def)
  moreover have "map Name (migrations (registerAll [1, 2] twoFragments (New (history [])))) = [''a'', ''b'']"
    by (simp add: twoFragments_def fragment_def New_def Create_def)
  moreover have "map Name (migrations (registerAll [2, 1] twoFragments (New (history [])))) = [''b'', ''a'']
     \<and> map Version (migrations (registerAll [2, 1] twoFragments (New (history [])))) = [1, 2]"
    by (simp add: twoFragments_def fragment_def New_def Create_def)
  ultimately show ?thesis by blast
qed

section \<open>Up run twice\<close>

text \<open>
  C8 does not hold for every history. Registry a, b and a store that holds b as Cancel
  before a as Success: \<open>Up\<close> applies b and returns nil; the record of b is updated in
  place, so the last Success record in insertion order is still a, and a second \<open>Up\<close>
  applies b again and writes its status twice more.
\<close>

theorem Up_again_runs_migration:
  "fst (Migrator_Up (MockSQLStorage succeeding) (registry2 (history
        [CreateMigration ''b'' StatusCancel 2 0, CreateMigration ''a'' StatusSuccess 1 1]))) = None
   \<and> trace (storage (snd (Migrator_Up (MockSQLStorage succeeding)
        (snd (Migrator_Up (MockSQLStorage succeeding) (registry2 (history
          [CreateMigration ''b'' StatusCancel 2 0, CreateMigration ''a'' StatusSuccess 1 1]))))))) =
      [EvLock, EvInsert 2 ''b'' StatusProcess, EvMigrate ''CREATE b'', EvInsert 2 ''b'' StatusSuccess,
       EvUnlock,
       EvLock, EvInsert 2 ''b'' StatusProcess, EvMigrate ''CREATE b'', EvInsert 2 ''b'' StatusSuccess,
       EvUnlock]"
  by (simp add: ex_defs run_defs Up_loop.simps)

text \<open>
  C8, amended. Let the registry be dense and the history in step with it, the lock free,
  the store report the not-found error and accept every write, and every up script of the
  registry succeed. When \<open>Up\<close> has returned success, an immediate second \<open>Up\<close>
  returns success, runs no migration and writes no status: registry and records are
  unchanged, and the trace grows by taking and releasing the lock only.
\<close>

theorem Up_again_is_noop:
  assumes lock: "lockErr e = None" and nf: "notFound e = ErrMigrationNotFound"
    and ins: "\<forall>x. insertErr e x = None"
    and scripts: "\<forall>mig\<in>set (migrations m). action_err e (Up mig) (UpGo mig) = None"
    and dense: "dense (migrations m)"
    and step: "inStep (map Name (migrations m)) (records (storage m))"
    and len: "length (migrations m) < 2 ^ 63"
    and first: "fst (Migrator_Up e m) = None"
  shows "fst (Migrator_Up e (snd (Migrator_Up e m))) = None
     \<and> migrations (snd (Migrator_Up e (snd (Migrator_Up e m)))) = migrations (snd (Migrator_Up e m))
     \<and> records (storage (snd (Migrator_Up e (snd (Migrator_Up e m)))))
         = records (storage (snd (Migrator_Up e m)))
     \<and> trace (storage (snd (Migrator_Up e (snd (Migrator_Up e m)))))
         = trace (storage (snd (Migrator_Up e m))) @ EvLock # unlocking e"
proof -
  let ?N = "length (migrations m)"
  let ?recs = "records (storage m)"
  let ?w0 = "(storage m)\<lparr>lockHeld := True, trace := trace (storage m) @ [EvLock]\<rparr>"
  let ?m0 = "m\<lparr>storage := ?w0\<rparr>"
  let ?mU = "snd (Up_locked e ?m0)"
  let ?m1 = "snd (Migrator_Up e m)"
  have up: "Migrator_Up e m = deferUnlock e (Up_locked e ?m0)"
    by (simp add: Migrator_Up_def Lock_def lock)
  have fstU: "fst (Up_locked e ?m0) = None"
    using first by (simp add: up deferUnlock_def)
  have m1: "migrations ?m1 = migrations ?mU" "records (storage ?m1) = records (storage ?mU)"
    by (simp_all add: up deferUnlock_def Unlock_frame)
  have ls1: "lastSuccess e (storage ?m1) = lastSuccess e (storage ?mU)"
    using m1(2) by (rule lastSuccess_records)
  have scripts': "\<forall>j<length (migrations ?m0).
        action_err e (Up (migrations ?m0 ! j)) (UpGo (migrations ?m0 ! j)) = None"
    using scripts by simp
  have dense0: "dense (migrations ?m0)" using dense by simp
  have step0: "inStep (map Name (migrations ?m0)) (records (storage ?m0))" using step by simp
  obtain L lmo where ls0: "lastSuccess e ?w0 = Inr (L, lmo)"
    using fstU by (cases "lastSuccess e ?w0") (auto simp: Up_locked_def)
  have mm0: "\<not> versionMismatch lmo ?m0"
    using fstU ls0 by (auto simp: Up_locked_def split: if_splits)
  have loop: "Up_locked e ?m0 = Up_loop e L ?m0"
    using ls0 mm0 by (simp add: Up_locked_def)
  have "\<exists>L' lmo'. lastSuccess e (storage ?m1) = Inr (L', lmo')
      \<and> int (length (migrations ?m1)) \<le> L' \<and> \<not> versionMismatch lmo' ?m1"
  proof (cases "int ?N \<le> L")
    case True
    then have "Up_loop e L ?m0 = (None, ?m0)" by (simp add: Up_loop_done)
    with loop have mU: "?mU = ?m0" by simp
    have "lastSuccess e (storage ?m1) = Inr (L, lmo)"
      using ls1 mU ls0 by simp
    moreover have "int (length (migrations ?m1)) \<le> L"
      using True m1(1) mU by simp
    moreover have "\<not> versionMismatch lmo ?m1"
      using mm0 versionMismatch_length [of ?m1 ?m0 lmo] m1(1) mU by simp
    ultimately show ?thesis by blast
  next
    case False
    then have LN: "L < int ?N" by simp
    have "\<exists>k. L = int k \<and> k \<le> length ?recs
        \<and> (\<forall>j<length ?recs. ?N \<le> j \<longrightarrow> Status (?recs ! j) \<noteq> StatusSuccess)"
    proof (cases "List.find (\<lambda>r. Status r = StatusSuccess) (rev ?recs)")
      case None
      then have "L = 0"
        using ls0 by (simp add: lastSuccess_def SelectLastMigrationByStatus_def nf)
      moreover from None have "\<forall>j<length ?recs. Status (?recs ! j) \<noteq> StatusSuccess"
        by (auto simp: find_None_iff)
      ultimately show ?thesis by simp
    next
      case (Some r)
      then have L: "L = Version r"
        using ls0 by (simp add: lastSuccess_def SelectLastMigrationByStatus_def)
      from find_rev_decomp [OF Some] obtain pre post
        where dec: "?recs = pre @ r # post" and post: "\<forall>x\<in>set post. Status x \<noteq> StatusSuccess"
        by blast
      have pl: "length pre < length ?recs" using dec by simp
      have "Version (?recs ! length pre) = int (length pre) + 1"
        using inStep_Version [OF step pl] .
      then have Lk: "L = int (Suc (length pre))"
        using L dec by simp
      have "\<forall>j<length ?recs. ?N \<le> j \<longrightarrow> Status (?recs ! j) \<noteq> StatusSuccess"
      proof (intro allI impI)
        fix j assume j: "j < length ?recs" "?N \<le> j"
        with LN Lk have "Suc (length pre) \<le> j" by simp
        then have "?recs ! j = post ! (j - Suc (length pre))"
          using dec by (simp add: nth_append)
        moreover have "j - Suc (length pre) < length post"
          using j(1) dec \<open>Suc (length pre) \<le> j\<close> by simp
        ultimately show "Status (?recs ! j) \<noteq> StatusSuccess"
          using post by (metis nth_mem)
      qed
      with Lk pl show ?thesis by (metis Suc_leI)
    qed
    then obtain k where k: "L = int k" "k \<le> length ?recs"
      and q: "\<forall>j<length ?recs. ?N \<le> j \<longrightarrow> Status (?recs ! j) \<noteq> StatusSuccess"
      by blast
    have kN: "k < ?N" using LN k by simp
    have k0: "k \<le> length (records (storage ?m0))" using k by simp
    have q0: "\<forall>j<length (records (storage ?m0)).
        length (migrations ?m0) \<le> j \<longrightarrow> Status (records (storage ?m0) ! j) \<noteq> StatusSuccess"
      using q by simp
    have n0: "length (migrations ?m0) - k = ?N - k" by simp
    note inv = Up_loop_inStep [OF ins n0 scripts' dense0 step0 k0 q0]
    let ?recs' = "records (storage ?mU)"
    have mU: "?mU = snd (Up_loop e (int k) ?m0)" using loop k by simp
    from inv kN have lenU: "length (migrations ?mU) = ?N"
      and a: "?N \<le> length ?recs'"
      and b: "Status (?recs' ! (?N - 1)) = StatusSuccess"
      and c: "Version (?recs' ! (?N - 1)) = int ?N"
      and d: "\<forall>j<length ?recs'. ?N \<le> j \<longrightarrow> Status (?recs' ! j) \<noteq> StatusSuccess"
      by (simp_all add: mU)
    have N1: "?N - 1 < length ?recs'" using a kN by simp
    have SN: "Suc (?N - 1) = ?N" using kN by simp
    have dec': "?recs' = take (?N - 1) ?recs' @ ?recs' ! (?N - 1) # drop ?N ?recs'"
      using id_take_nth_drop [OF N1] by (simp only: SN)
    have post': "\<forall>x\<in>set (drop ?N ?recs'). Status x \<noteq> StatusSuccess"
    proof
      fix x assume "x \<in> set (drop ?N ?recs')"
      then obtain j where "j < length ?recs' - ?N" "x = ?recs' ! (?N + j)"
        by (auto simp: in_set_conv_nth)
      with d show "Status x \<noteq> StatusSuccess" by simp
    qed
    have sel: "SelectLastMigrationByStatus e StatusSuccess (storage ?mU) = Inr (?recs' ! (?N - 1))"
      using Select_last [OF dec' b post'] .
    have "lastSuccess e (storage ?m1) = Inr (int ?N, Some (?recs' ! (?N - 1)))"
      using ls1 sel c by (simp add: lastSuccess_def)
    moreover have "int (length (migrations ?m1)) \<le> int ?N"
      using m1(1) lenU by simp
    moreover have "\<not> versionMismatch (Some (?recs' ! (?N - 1))) ?m1"
      using c len kN m1(1) lenU by (simp add: versionMismatch_def int64_id)
    ultimately show ?thesis by blast
  qed
  then obtain L' lmo' where "lastSuccess e (storage ?m1) = Inr (L', lmo')"
      "int (length (migrations ?m1)) \<le> L'" "\<not> versionMismatch lmo' ?m1"
    by blast
  from Up_noop_when_current [OF lock this] show ?thesis .
qed

theorem Up_again_is_noop_witness:
  "fst (Migrator_Up healthy (snd (Migrator_Up healthy
      (registry2 (history [CreateMigration ''a'' StatusSuccess 1 0]))))) = None
   \<and> trace (storage (snd (Migrator_Up healthy (snd (Migrator_Up healthy
      (registry2 (history [CreateMigration ''a'' StatusSuccess 1 0]))))))) =
     [EvLock, EvInsert 2 ''b'' StatusProcess, EvMigrate ''CREATE b'', EvInsert 2 ''b'' StatusSuccess,
      EvUnlock, EvLock, EvUnlock]"
proof -
  let ?m = "registry2 (history [CreateMigration ''a'' StatusSuccess 1 0])"
  have lock: "lockErr healthy = None" and nf: "notFound healthy = ErrMigrationNotFound"
    and ins: "\<forall>x. insertErr healthy x = None"
    by (simp_all add: ev_defs)
  have scripts: "\<forall>mig\<in>set (migrations ?m). action_err healthy (Up mig) (UpGo mig) = None"
    and dense: "dense (migrations ?m)"
    and step: "inStep (map Name (migrations ?m)) (records (storage ?m))"
    and len: "length (migrations ?m) < 2 ^ 63"
    by (simp_all add: ev_defs inStep_def)
  have first: "fst (Migrator_Up healthy ?m) = None"
    by (simp add: ev_defs run_defs Up_loop.simps)
  have tr: "trace (storage (snd (Migrator_Up healthy ?m))) =
     [EvLock, EvInsert 2 ''b'' StatusProcess, EvMigrate ''CREATE b'', EvInsert 2 ''b'' StatusSuccess,
      EvUnlock]"
    by (simp add: ev_defs run_defs Up_loop.simps)
  from Up_again_is_noop [OF lock nf ins scripts dense step len first] tr show ?thesis
    by (simp add: unlocking_def healthy_def ContractStorage_def)
qed

section \<open>Merging the fragments of one version\<close>

text \<open>
  C9. Merging a fragment into the migration of its version is right-biased: every body
  field of the result is the later fragment's when that fragment supplies it, and the
  earlier one's otherwise, so a fragment never clears a field it does not supply; version
  and name stay those of the earlier fragment. When the two supply disjoint fields the
  body fields of the result do not depend on the order, and for two fragments of the same
  version and name neither does the whole migration.
\<close>

theorem mergeMigrations_right_biased_commutative:
  "Up (mergeMigrations a b) = (if Up b \<noteq> [] then Up b else Up a)
   \<and> Down (mergeMigrations a b) = (if Down b \<noteq> [] then Down b else Down a)
   \<and> UpGo (mergeMigrations a b) = (if UpGo b \<noteq> None then UpGo b else UpGo a)
   \<and> DownGo (mergeMigrations a b) = (if DownGo b \<noteq> None then DownGo b else DownGo a)
   \<and> Version (mergeMigrations a b) = Version a
   \<and> Name (mergeMigrations a b) = Name a
   \<and> (disjointFields a b \<longrightarrow>
        Up (mergeMigrations a b) = Up (mergeMigrations b a)
        \<and> Down (mergeMigrations a b) = Down (mergeMigrations b a)
        \<and> UpGo (mergeMigrations a b) = UpGo (mergeMigrations b a)
        \<and> DownGo (mergeMigrations a b) = DownGo (mergeMigrations b a))
   \<and> (disjointFields a b \<and> Version a = Version b \<and> Name a = Name b \<and> Status a = Status b
        \<and> StatusChangeTime a = StatusChangeTime b \<longrightarrow>
        mergeMigrations a b = mergeMigrations b a)"
  by (cases a, cases b) (auto simp: mergeMigrations_def disjointFields_def Let_def)

theorem mergeMigrations_right_biased_commutative_witness:
  "disjointFields ((fragment 1 ''a'')\<lparr>Up := ''CREATE a''\<rparr>) ((fragment 1 ''a'')\<lparr>Down := ''DROP a''\<rparr>)
   \<and> mergeMigrations ((fragment 1 ''a'')\<lparr>Up := ''CREATE a''\<rparr>) ((fragment 1 ''a'')\<lparr>Down := ''DROP a''\<rparr>)
     = mergeMigrations ((fragment 1 ''a'')\<lparr>Down := ''DROP a''\<rparr>) ((fragment 1 ''a'')\<lparr>Up := ''CREATE a''\<rparr>)
   \<and> Up (mergeMigrations ((fragment 1 ''a'')\<lparr>Up := ''CREATE a''\<rparr>) ((fragment 1 ''a'')\<lparr>Up := ''CREATE b''\<rparr>))
     = ''CREATE b''"
proof -
  let ?a = "(fragment 1 ''a'')\<lparr>Up := ''CREATE a''\<rparr>"
  let ?b = "(fragment 1 ''a'')\<lparr>Down := ''DROP a''\<rparr>"
  let ?c = "(fragment 1 ''a'')\<lparr>Up := ''CREATE b''\<rparr>"
  have d: "disjointFields ?a ?b"
    by (simp add: disjointFields_def fragment_def)
  have same: "Version ?a = Version ?b \<and> Name ?a = Name ?b \<and> Status ?a = Status ?b
      \<and> StatusChangeTime ?a = StatusChangeTime ?b"
    by (simp add: fragment_def)
  from mergeMigrations_right_biased_commutative [of ?a ?b] d same
  have comm: "mergeMigrations ?a ?b = mergeMigrations ?b ?a"
    by blast
  from mergeMigrations_right_biased_commutative [of ?a ?c]
  have "Up (mergeMigrations ?a ?c) = (if Up ?c \<noteq> [] then Up ?c else Up ?a)"
    by blast
  then have bias: "Up (mergeMigrations ?a ?c) = ''CREATE b''"
    by (simp add: fragment_def)
  from d comm bias show ?thesis
    by blast
qed

section \<open>Redo on an empty registry\<close>

text \<open>
  C10. \<open>Redo\<close> indexes the migrations of the registry at the last successful version
  without a bounds check. On an empty registry and a history with no successful migration,
  with the lock free and a store that reports the not-found error, the \<open>Down\<close> of
  \<open>Redo\<close> returns success as a no-op, and \<open>Redo\<close> then reads index 0 of an empty
  slice: it ends in the index-out-of-range panic, not in an error or a no-op.
\<close>

theorem Redo_indexes_empty_registry:
  assumes "lockErr e = None" and "notFound e = ErrMigrationNotFound"
    and "migrations m = []" and "\<forall>r\<in>set (records (storage m)). Status r \<noteq> StatusSuccess"
  shows "fst (Migrator_Down e m) = None \<and> fst (Migrator_Redo e m) = Some PanicIndexOutOfRange"
  using assms
  by (auto simp: Migrator_Redo_def Migrator_Down_def Down_locked_def Lock_def Unlock_def
        deferUnlock_def lastSuccess_def versionMismatch_def SelectLastMigrationByStatus_def
        find_rev_none split: option.splits prod.splits sum.splits)

theorem Redo_indexes_empty_registry_witness:
  "fst (Migrator_Redo (ContractStorage None (\<lambda>_. None) (\<lambda>_. None) succeeding) (New (history [])))
     = Some PanicIndexOutOfRange"
proof -
  let ?e = "ContractStorage None (\<lambda>_. None) (\<lambda>_. None) succeeding"
  let ?m = "New (history [])"
  have 1: "lockErr ?e = None" and 2: "notFound ?e = ErrMigrationNotFound"
    by (simp_all add: ContractStorage_def)
  have 3: "migrations ?m = []" and 4: "\<forall>r\<in>set (records (storage ?m)). Status r \<noteq> StatusSuccess"
    by (simp_all add: New_def history_def)
  from Redo_indexes_empty_registry [OF 1 2 3 4] show ?thesis
    by simp
qed

end
